theory Spec2Isabelle
  imports Main "HOL-Library.Word" "HOL-Library.AList"
begin

text \<open>
  A model of the exception handlers of the ABRT Java connector (\<open>src/abrt-checker.c\<close>):
  the reason formatter, the handlers of the JVMTI events Exception, ExceptionCatch
  and ThreadEnd, and the per-thread state they keep. The handlers run under one
  lock; the model takes one handler call at a time.
\<close>

section \<open>The reason formatter of abrt-checker.c\<close>

text \<open>
  C strings are modelled as \<open>string\<close> (the bytes before the terminating NUL), a
  \<open>char *\<close> that may be NULL as \<open>string option\<close>.
\<close>

definition MAX_REASON_MESSAGE_STRING_LENGTH :: nat where
  "MAX_REASON_MESSAGE_STRING_LENGTH = 255"

definition INT_MAX :: int where
  "INT_MAX = 2147483647"

text \<open>
  \<open>strrchr s c\<close>: the suffix of \<open>s\<close> that starts at the last occurrence of \<open>c\<close>
  (the pointer the C function returns), \<open>None\<close> for NULL.
\<close>

fun strrchr :: "string \<Rightarrow> char \<Rightarrow> string option" where
  "strrchr [] c = None"
| "strrchr (x # xs) c =
     (case strrchr xs c of
        Some ptr \<Rightarrow> Some ptr
      | None \<Rightarrow> if x = c then Some (x # xs) else None)"

text \<open>
  \<open>snprintf buf n fmt ...\<close> where \<open>rendered\<close> is the fully formatted text: the
  buffer receives at most \<open>n - 1\<close> bytes, the return value is the length of the
  full text, or a negative value when that length does not fit an \<open>int\<close>.
\<close>

definition snprintf :: "nat \<Rightarrow> string \<Rightarrow> string \<times> int" where
  "snprintf n rendered =
     (if INT_MAX < int (length rendered) then ([], - 1)
      else (take (n - 1) rendered, int (length rendered)))"

text \<open>The format \<^verbatim>\<open>"%s exception %s in method %s%s%s()"\<close> with its five arguments.\<close>

definition reason_text :: "string \<Rightarrow> string \<Rightarrow> string \<Rightarrow> string \<Rightarrow> string" where
  "reason_text prefix exception_name class_name method =
     prefix @ '' exception '' @ exception_name @ '' in method '' @ class_name
       @ (if class_name \<noteq> [] then ''.'' else '''') @ method @ ''()''"

text \<open>
  One pass through the body of the \<open>while (1)\<close> loop of
  \<open>format_exception_reason_message\<close>: it either returns (the message, or NULL) or
  continues with a new \<open>exception_name\<close> and \<open>class_name\<close>.
\<close>

datatype loop_step = Return "string option" | Continue string string

definition reason_loop_body :: "string \<Rightarrow> string \<Rightarrow> string \<Rightarrow> string \<Rightarrow> loop_step" where
  "reason_loop_body prefix exception_name class_name method =
     (let (message, message_len) =
            snprintf MAX_REASON_MESSAGE_STRING_LENGTH
              (reason_text prefix exception_name class_name method)
      in if message_len \<le> 0 then Return None
         else if message_len \<ge> int MAX_REASON_MESSAGE_STRING_LENGTH then
           (case strrchr class_name CHR ''.'' of
              Some ptr \<Rightarrow> Continue exception_name (tl ptr)
            | None \<Rightarrow>
               (case strrchr exception_name CHR ''.'' of
                  Some ptr \<Rightarrow> Continue (tl ptr) class_name
                | None \<Rightarrow>
                   if class_name \<noteq> [] then
                     Continue exception_name (drop (length class_name) class_name)
                   else Return (Some message)))
         else Return (Some message))"

lemma strrchr_length: "strrchr s c = Some ptr \<Longrightarrow> length (tl ptr) < length s"
  by (induction s) (auto split: option.splits if_splits)

lemma reason_loop_body_decreases:
  "reason_loop_body prefix exception_name class_name method = Continue e' c' \<Longrightarrow>
   length e' + length c' < length exception_name + length class_name"
  unfolding reason_loop_body_def Let_def
  by (auto split: prod.splits if_splits option.splits dest!: strrchr_length)

function reason_loop :: "string \<Rightarrow> string \<Rightarrow> string \<Rightarrow> string \<Rightarrow> string option" where
  "reason_loop prefix exception_name class_name method =
     (case reason_loop_body prefix exception_name class_name method of
        Return r \<Rightarrow> r
      | Continue exception_name' class_name' \<Rightarrow>
          reason_loop prefix exception_name' class_name' method)"
  by pat_completeness auto
termination
  by (relation "measure (\<lambda>(p, e, c, m). length e + length c)")
     (auto dest: reason_loop_body_decreases)

declare reason_loop.simps [simp del]

text \<open>
  \<open>format_exception_reason_message\<close>. The outcome of its \<open>calloc\<close> is an input
  (\<open>calloc_ok\<close>); the result is \<open>None\<close> where the C function returns NULL.
\<close>

definition format_exception_reason_message ::
  "bool \<Rightarrow> bool \<Rightarrow> string \<Rightarrow> string \<Rightarrow> string \<Rightarrow> string option" where
  "format_exception_reason_message calloc_ok caught exception_fqdn class_fqdn method =
     (let exception_name = exception_fqdn;
          class_name = class_fqdn;
          prefix = (if caught then ''Caught'' else ''Uncaught'')
      in if \<not> calloc_ok then None
         else reason_loop prefix exception_name class_name method)"

section \<open>Handles, reports and the collaborators of the handlers\<close>

type_synonym jlong = "64 word"
type_synonym jobject = nat
type_synonym jthread = nat
type_synonym jmethodID = nat
type_synonym jclass = nat

text \<open>\<open>T_infoPair\<close>: a label and the data collected for it.\<close>

type_synonym T_infoPair = "string \<times> string"

record T_exceptionReport =
  rpt_message :: "string option"
  rpt_stacktrace :: "string option"
  rpt_executable :: "string option"
  rpt_exception_type_name :: "string option"
  rpt_additional_info :: "T_infoPair list option"
  rpt_exception_object :: jobject

text \<open>
  What the handlers obtain from the JVM (JNI, JVMTI), from the allocator and from the
  configuration. A lookup that fails (a JVMTI error, a pending Java exception, a NULL
  result) is \<open>None\<close>; an allocation that fails is \<open>False\<close>.
\<close>

record jvm =
  Thread_getId :: "jthread \<Rightarrow> jlong option"
  GetMethodName :: "jmethodID \<Rightarrow> string option"
  GetMethodDeclaringClass :: "jmethodID \<Rightarrow> jclass option"
  GetClassSignature :: "jclass \<Rightarrow> string option"
  GetObjectClass :: "jobject \<Rightarrow> jclass"
  Object_equals :: "jobject \<Rightarrow> jobject \<Rightarrow> bool option"
  FindClass_Object :: bool
  GetMethodID_equals :: bool
  generate_thread_stack_trace :: "jthread \<Rightarrow> jobject \<Rightarrow> string option \<times> string option"
  collect_additional_debug_information :: "T_infoPair list option"
  calloc_message_ok :: bool
  malloc_report_ok :: bool
  circular_buf_alloc_ok :: bool
  reportedCaughExceptionTypes :: "string list option"
  executable_thread_flag :: bool
  main_class :: "string option"

section \<open>The dedup ring and the per-thread maps\<close>

text \<open>
  Modelled from the spec: the type of \<open>jthrowable_circular_buf.h\<close>, which is not
  among the sources. A ring of fixed capacity of recently reported fault identities;
  \<open>cb_end\<close> is the slot the next push writes.
\<close>

record T_jthrowableCircularBuf =
  cb_capacity :: nat
  cb_mem :: "jobject option list"
  cb_end :: nat

text \<open>
  Modelled from the spec: \<open>jthrowable_circular_buf_new\<close> (in
  \<open>jthrowable_circular_buf.c\<close>, not among the sources). The capacity is fixed at
  construction; the ring starts empty.
\<close>

definition jthrowable_circular_buf_new :: "nat \<Rightarrow> T_jthrowableCircularBuf" where
  "jthrowable_circular_buf_new capacity =
     \<lparr>cb_capacity = capacity, cb_mem = replicate capacity None, cb_end = 0\<rparr>"

text \<open>
  Modelled from the spec: \<open>jthrowable_circular_buf_push\<close> (not among the sources).
  Push inserts, overwriting the oldest slot when the ring is full; there is no growth.
\<close>

definition jthrowable_circular_buf_push ::
  "T_jthrowableCircularBuf \<Rightarrow> jobject \<Rightarrow> T_jthrowableCircularBuf" where
  "jthrowable_circular_buf_push buffer exception =
     buffer\<lparr>cb_mem := (cb_mem buffer)[cb_end buffer := Some exception],
            cb_end := (cb_end buffer + 1) mod cb_capacity buffer\<rparr>"

text \<open>
  Modelled from the spec: \<open>jthrowable_circular_buf_find\<close> (not among the sources).
  Find is a linear membership test; the handlers compare its result with NULL.
\<close>

definition jthrowable_circular_buf_find :: "T_jthrowableCircularBuf \<Rightarrow> jobject \<Rightarrow> bool" where
  "jthrowable_circular_buf_find buffer exception = (Some exception \<in> set (cb_mem buffer))"

text \<open>
  Modelled from the spec: the type of \<open>jthread_map.h\<close>, which is not among the
  sources. A map from a 64-bit thread identifier to at most one item.
\<close>

type_synonym 'a T_jthreadMap = "(jlong \<times> 'a) list"

text \<open>Modelled from the spec: \<open>jthread_map_new\<close> (not among the sources), the empty map.\<close>

definition jthread_map_new :: "'a T_jthreadMap" where
  "jthread_map_new = []"

text \<open>
  Modelled from the spec: \<open>jthread_map_empty\<close> (not among the sources): the map is
  empty overall.
\<close>

definition jthread_map_empty :: "'a T_jthreadMap \<Rightarrow> bool" where
  "jthread_map_empty m = (case m of [] \<Rightarrow> True | _ \<Rightarrow> False)"

text \<open>
  Modelled from the spec: \<open>jthread_map_get\<close> (not among the sources): peek, without
  removing; \<open>None\<close> for absent.
\<close>

definition jthread_map_get :: "'a T_jthreadMap \<Rightarrow> jlong \<Rightarrow> 'a option" where
  "jthread_map_get m tid = map_of m tid"

text \<open>
  Modelled from the spec: \<open>jthread_map_push\<close> (not among the sources): stores
  unconditionally, in place of what the map held for the thread.
\<close>

definition jthread_map_push :: "'a T_jthreadMap \<Rightarrow> jlong \<Rightarrow> 'a \<Rightarrow> 'a T_jthreadMap" where
  "jthread_map_push m tid item = AList.update tid item m"

text \<open>
  Modelled from the spec: \<open>jthread_map_pop\<close> (not among the sources): removes the
  thread's entry and hands the item over; \<open>None\<close> for absent.
\<close>

definition jthread_map_pop :: "'a T_jthreadMap \<Rightarrow> jlong \<Rightarrow> 'a option \<times> 'a T_jthreadMap" where
  "jthread_map_pop m tid = (map_of m tid, AList.delete tid m)"

section \<open>The state of the agent\<close>

text \<open>One call of \<open>report_stacktrace\<close>, with its four arguments.\<close>

record stacktrace_report =
  rs_executable :: "string option"
  rs_message :: string
  rs_stacktrace :: "string option"
  rs_additional_info :: "T_infoPair list option"

text \<open>
  The two global maps and the reports handed to \<open>report_stacktrace\<close> so far, oldest
  first. \<open>threadMap\<close> is \<open>None\<close> while the global pointer is NULL. Memory release
  (\<open>free\<close>, \<open>exception_report_free\<close>, \<open>Deallocate\<close>) is not part of the state.
\<close>

record agent_state =
  threadMap :: "T_jthrowableCircularBuf T_jthreadMap option"
  uncaughtExceptionMap :: "T_exceptionReport T_jthreadMap"
  reported :: "stacktrace_report list"

definition REPORTED_EXCEPTION_STACK_CAPACITY :: nat where
  "REPORTED_EXCEPTION_STACK_CAPACITY = 5"

text \<open>
  \<open>report_stacktrace\<close> hands the report to syslog, the journal, the log file and
  ABRT; here it is recorded.
\<close>

definition report_stacktrace ::
  "string option \<Rightarrow> string \<Rightarrow> string option \<Rightarrow> T_infoPair list option
   \<Rightarrow> agent_state \<Rightarrow> agent_state" where
  "report_stacktrace executable message stacktrace additional_info s =
     s\<lparr>reported := reported s @
          [\<lparr>rs_executable = executable, rs_message = message,
            rs_stacktrace = stacktrace, rs_additional_info = additional_info\<rparr>]\<rparr>"

text \<open>\<open>get_tid\<close>: \<open>None\<close> where the C function returns 1 and leaves \<open>*tid\<close> alone.\<close>

definition get_tid :: "jvm \<Rightarrow> jthread \<Rightarrow> jlong option" where
  "get_tid env thr = Thread_getId env thr"

text \<open>
  \<open>format_class_name\<close> on a non-NULL signature: the result is the C string that
  starts at the returned pointer, so it ends at the first NUL byte.
\<close>

definition format_class_name :: "string \<Rightarrow> char \<Rightarrow> string" where
  "format_class_name class_signature replace_to =
     (let dotted = map (\<lambda>c. if c = CHR ''/'' then CHR ''.'' else c) class_signature;
          replaced = (if dotted \<noteq> [] \<and> last dotted = CHR '';''
                      then butlast dotted @ [replace_to] else dotted);
          output = (if class_signature \<noteq> [] \<and> hd class_signature = CHR ''L''
                    then tl replaced else replaced)
      in takeWhile (\<lambda>c. c \<noteq> CHR 0x00) output)"

definition get_exception_type_name :: "jvm \<Rightarrow> jobject \<Rightarrow> string option" where
  "get_exception_type_name env exception_object =
     (let exception_class = GetObjectClass env exception_object
      in case GetClassSignature env exception_class of
           None \<Rightarrow> None
         | Some exception_name_ptr \<Rightarrow> Some (format_class_name exception_name_ptr (CHR 0x00)))"

text \<open>
  \<open>exception_is_intended_to_be_reported\<close>: the return value and the new content of
  \<open>*exception_type\<close>.
\<close>

definition exception_is_intended_to_be_reported ::
  "jvm \<Rightarrow> jobject \<Rightarrow> string option \<Rightarrow> bool \<times> string option" where
  "exception_is_intended_to_be_reported env exception_object exception_type =
     (case reportedCaughExceptionTypes env of
        None \<Rightarrow> (False, exception_type)
      | Some types \<Rightarrow>
         (let exception_type' =
                (case exception_type of
                   None \<Rightarrow> get_exception_type_name env exception_object
                 | Some t \<Rightarrow> Some t)
          in case exception_type' of
               None \<Rightarrow> (False, None)
             | Some t \<Rightarrow> (t \<in> set types, Some t)))"

text \<open>
  \<open>create_exception_buf_for_thread\<close>: the new buffer (\<open>None\<close> for NULL) and the
  state. The outer \<open>None\<close> stands for \<open>jthread_map_push\<close> on a NULL map, which C
  leaves undefined.
\<close>

definition create_exception_buf_for_thread ::
  "jvm \<Rightarrow> jlong \<Rightarrow> agent_state
   \<Rightarrow> (T_jthrowableCircularBuf option \<times> agent_state) option" where
  "create_exception_buf_for_thread env tid s =
     (if \<not> circular_buf_alloc_ok env then Some (None, s)
      else
        let threads_exc_buf = jthrowable_circular_buf_new REPORTED_EXCEPTION_STACK_CAPACITY
        in case threadMap s of
             None \<Rightarrow> None
           | Some tm \<Rightarrow>
               Some (Some threads_exc_buf,
                     s\<lparr>threadMap := Some (jthread_map_push tm tid threads_exc_buf)\<rparr>))"

text \<open>
  The lookup both exception handlers start with: \<open>tid\<close> (0 when it could not be
  read) and the thread's buffer (\<open>None\<close> for NULL).
\<close>

definition lookup_threads_exc_buf ::
  "jvm \<Rightarrow> jthread \<Rightarrow> agent_state \<Rightarrow> jlong \<times> T_jthrowableCircularBuf option" where
  "lookup_threads_exc_buf env thr s =
     (case threadMap s of
        None \<Rightarrow> (0, None)
      | Some tm \<Rightarrow>
         (case get_tid env thr of
            None \<Rightarrow> (0, None)
          | Some tid \<Rightarrow> (tid, jthread_map_get tm tid)))"

text \<open>
  The lines both exception handlers end a report with: create the thread's buffer
  if it has none, then push the exception into it. The buffer is the one the map
  holds for \<open>tid\<close>, so the push shows in the map's entry.
\<close>

definition push_reported_exception ::
  "jvm \<Rightarrow> jlong \<Rightarrow> T_jthrowableCircularBuf option \<Rightarrow> jobject \<Rightarrow> agent_state
   \<Rightarrow> agent_state option" where
  "push_reported_exception env tid threads_exc_buf exception_object s =
     (case (case threads_exc_buf of
              None \<Rightarrow> create_exception_buf_for_thread env tid s
            | Some buf \<Rightarrow> Some (Some buf, s)) of
        None \<Rightarrow> None
      | Some (None, s') \<Rightarrow> Some s'
      | Some (Some buf, s') \<Rightarrow>
          (case threadMap s' of
             None \<Rightarrow> None
           | Some tm \<Rightarrow>
               Some (s'\<lparr>threadMap :=
                  Some (AList.update tid (jthrowable_circular_buf_push buf exception_object) tm)\<rparr>)))"

section \<open>The three handlers\<close>

text \<open>
  A handler maps the state to the state it leaves. \<open>None\<close> stands for a run that C
  leaves undefined: a NULL type name given to \<open>snprintf\<close>, a push on a NULL map.
\<close>

text \<open>\<open>already_reported buf e\<close>: the buffer exists and holds \<open>e\<close>.\<close>

definition already_reported :: "T_jthrowableCircularBuf option \<Rightarrow> jobject \<Rightarrow> bool" where
  "already_reported threads_exc_buf exception_object =
     (case threads_exc_buf of
        None \<Rightarrow> False
      | Some buf \<Rightarrow> jthrowable_circular_buf_find buf exception_object)"

definition callback_on_exception ::
  "jvm \<Rightarrow> jthread \<Rightarrow> jmethodID \<Rightarrow> jobject \<Rightarrow> jmethodID option
   \<Rightarrow> agent_state \<Rightarrow> agent_state option" where
  "callback_on_exception env thr method exception_object catch_method s =
     (if catch_method \<noteq> None \<and> reportedCaughExceptionTypes env = None then Some s
      else
        let (intended, exception_type_name) =
              (if catch_method = None then (True, None)
               else exception_is_intended_to_be_reported env exception_object None)
        in if \<not> intended then Some s
           else
             let (tid, threads_exc_buf) = lookup_threads_exc_buf env thr s
             in if already_reported threads_exc_buf exception_object then Some s
                else
                  (case GetMethodName env method of
                     None \<Rightarrow> Some s
                   | Some method_name_ptr \<Rightarrow>
                  (case GetMethodDeclaringClass env method of
                     None \<Rightarrow> Some s
                   | Some method_class \<Rightarrow>
                  (case GetClassSignature env method_class of
                     None \<Rightarrow> Some s
                   | Some class_signature_ptr \<Rightarrow>
                  (let class_name_ptr = butlast (format_class_name class_signature_ptr CHR ''.'');
                       exception_type_name =
                         (case exception_type_name of
                            None \<Rightarrow> get_exception_type_name env exception_object
                          | Some t \<Rightarrow> Some t)
                   in case exception_type_name of
                        None \<Rightarrow> None
                      | Some type_name \<Rightarrow>
                  (let message = format_exception_reason_message (calloc_message_ok env)
                                   (catch_method \<noteq> None) type_name class_name_ptr method_name_ptr;
                       (stack_trace_str, found_executable) =
                          generate_thread_stack_trace env thr exception_object;
                       executable = (if executable_thread_flag env then found_executable else None);
                       additional_info = collect_additional_debug_information env;
                       report_message =
                         (case message of
                            None \<Rightarrow> if catch_method \<noteq> None then ''Caught exception''
                                    else ''Uncaught exception''
                          | Some m \<Rightarrow> m)
                   in if catch_method = None then
                        (if \<not> malloc_report_ok env then Some s
                         else
                           let rpt = \<lparr>rpt_message = message,
                                      rpt_stacktrace = stack_trace_str,
                                      rpt_executable = executable,
                                      rpt_exception_type_name = Some type_name,
                                      rpt_additional_info = additional_info,
                                      rpt_exception_object = exception_object\<rparr>
                           in Some (s\<lparr>uncaughtExceptionMap :=
                                        jthread_map_push (uncaughtExceptionMap s) tid rpt\<rparr>))
                      else
                        push_reported_exception env tid threads_exc_buf exception_object
                          (report_stacktrace
                             (case executable of None \<Rightarrow> main_class env | Some e \<Rightarrow> Some e)
                             report_message stack_trace_str additional_info s)))))))"

definition callback_on_exception_catch ::
  "jvm \<Rightarrow> jthread \<Rightarrow> jmethodID \<Rightarrow> jobject \<Rightarrow> agent_state \<Rightarrow> agent_state option" where
  "callback_on_exception_catch env thread method exception_object s =
     (if jthread_map_empty (uncaughtExceptionMap s) then Some s
      else
        (case get_tid env thread of
           None \<Rightarrow> Some s
         | Some tid \<Rightarrow>
        (case jthread_map_get (uncaughtExceptionMap s) tid of
           None \<Rightarrow> Some s
         | Some rpt \<Rightarrow>
            if \<not> FindClass_Object env then Some s
            else if \<not> GetMethodID_equals env then Some s
            else if Object_equals env exception_object (rpt_exception_object rpt) \<noteq> Some True
              then Some s
            else
              let s1 = s\<lparr>uncaughtExceptionMap :=
                          snd (jthread_map_pop (uncaughtExceptionMap s) tid)\<rparr>;
                  (intended, exception_type_name) =
                     exception_is_intended_to_be_reported env (rpt_exception_object rpt)
                       (rpt_exception_type_name rpt)
              in if \<not> intended then Some s1
                 else
                   let (tid, threads_exc_buf) = lookup_threads_exc_buf env thread s1
                   in if already_reported threads_exc_buf (rpt_exception_object rpt) then Some s1
                      else
                        (case GetMethodName env method of
                           None \<Rightarrow> Some s1
                         | Some method_name_ptr \<Rightarrow>
                        (case GetMethodDeclaringClass env method of
                           None \<Rightarrow> Some s1
                         | Some class \<Rightarrow>
                        (case GetClassSignature env class of
                           None \<Rightarrow> Some s1
                         | Some class_signature_ptr \<Rightarrow>
                        (case exception_type_name of
                           None \<Rightarrow> None
                         | Some type_name \<Rightarrow>
                        (let class_name_ptr = format_class_name class_signature_ptr (CHR 0x00);
                             message = format_exception_reason_message (calloc_message_ok env)
                                         True type_name class_name_ptr method_name_ptr
                         in push_reported_exception env tid threads_exc_buf
                              (rpt_exception_object rpt)
                              (report_stacktrace
                                 (case rpt_executable rpt of
                                    None \<Rightarrow> main_class env | Some e \<Rightarrow> Some e)
                                 (case message of None \<Rightarrow> ''Caught exception'' | Some m \<Rightarrow> m)
                                 (rpt_stacktrace rpt) (rpt_additional_info rpt) s1)))))))))"

definition callback_on_thread_end :: "jvm \<Rightarrow> jthread \<Rightarrow> agent_state \<Rightarrow> agent_state option" where
  "callback_on_thread_end env thread s =
     (case threadMap s of
        None \<Rightarrow> Some s
      | Some tm \<Rightarrow>
         if \<not> jthread_map_empty tm \<or> \<not> jthread_map_empty (uncaughtExceptionMap s) then
           (case get_tid env thread of
              None \<Rightarrow> Some s
            | Some tid \<Rightarrow>
               let (rpt, uncaught') = jthread_map_pop (uncaughtExceptionMap s) tid;
                   (threads_exc_buf, tm') = jthread_map_pop tm tid;
                   s1 = s\<lparr>threadMap := Some tm', uncaughtExceptionMap := uncaught'\<rparr>
               in case rpt of
                    None \<Rightarrow> Some s1
                  | Some r \<Rightarrow>
                      if \<not> already_reported threads_exc_buf (rpt_exception_object r) then
                        Some (report_stacktrace
                                (case rpt_executable r of
                                   None \<Rightarrow> main_class env | Some e \<Rightarrow> Some e)
                                (case rpt_message r of
                                   None \<Rightarrow> ''Uncaught exception'' | Some m \<Rightarrow> m)
                                (rpt_stacktrace r) (rpt_additional_info r) s1)
                      else Some s1)
         else Some s)"

section \<open>The reason formatter as the specification words it\<close>

text \<open>
  The substring after the last namespace separator; a name without a separator is
  left as it is.
\<close>

definition strip_namespace :: "string \<Rightarrow> string" where
  "strip_namespace s = (case strrchr s CHR ''.'' of None \<Rightarrow> s | Some ptr \<Rightarrow> tl ptr)"

text \<open>The rendered text fits when its length is below the budget of 255 bytes.\<close>

definition fits_budget :: "string \<Rightarrow> bool" where
  "fits_budget r = (length r < 255)"

text \<open>
  The specification's \<open>build\<close>: render; while the text meets or exceeds the budget,
  (a) strip the class namespace, (b) strip the fault-type namespace, (c) drop the
  class qualifier, rendering again after each step; what still does not fit is cut.
\<close>

definition ReasonFormatter_build :: "bool \<Rightarrow> string \<Rightarrow> string \<Rightarrow> string \<Rightarrow> string" where
  "ReasonFormatter_build caught faultType declaringClass methodName =
     (let prefix = (if caught then ''Caught'' else ''Uncaught'');
          r0 = reason_text prefix faultType declaringClass methodName;
          class1 = strip_namespace declaringClass;
          r1 = reason_text prefix faultType class1 methodName;
          type1 = strip_namespace faultType;
          r2 = reason_text prefix type1 class1 methodName;
          r3 = reason_text prefix type1 [] methodName
      in if fits_budget r0 then r0
         else if fits_budget r1 then r1
         else if fits_budget r2 then r2
         else if fits_budget r3 then r3
         else take 254 r3)"

text \<open>The rendered length is one \<open>snprintf\<close> can return as an \<open>int\<close>.\<close>

definition in_int_range :: "string \<Rightarrow> bool" where
  "in_int_range r = (int (length r) \<le> INT_MAX)"

text \<open>The loop of the formatter with a bound on its passes: \<open>None\<close> when the bound is used up.\<close>

fun reason_loop_fuel ::
  "nat \<Rightarrow> string \<Rightarrow> string \<Rightarrow> string \<Rightarrow> string \<Rightarrow> string option option" where
  "reason_loop_fuel 0 prefix exception_name class_name method = None"
| "reason_loop_fuel (Suc n) prefix exception_name class_name method =
     (case reason_loop_body prefix exception_name class_name method of
        Return r \<Rightarrow> Some r
      | Continue exception_name' class_name' \<Rightarrow>
          reason_loop_fuel n prefix exception_name' class_name' method)"

text \<open>How many of the three shrink steps can still apply to the two names.\<close>

definition shrink_steps_left :: "string \<Rightarrow> string \<Rightarrow> nat" where
  "shrink_steps_left exception_name class_name =
     (if strrchr class_name CHR ''.'' \<noteq> None then 1 else 0)
     + (if strrchr exception_name CHR ''.'' \<noteq> None then 1 else 0)
     + (if class_name \<noteq> [] then 1 else 0)"

definition starts_with :: "string \<Rightarrow> string \<Rightarrow> bool" where
  "starts_with p s = (take (length p) s = p)"

section \<open>Notions the claims are stated with\<close>

text \<open>The three JVMTI lookups a handler makes for a method all succeed.\<close>

definition method_resolved :: "jvm \<Rightarrow> jmethodID \<Rightarrow> bool" where
  "method_resolved env m =
     (case GetMethodName env m of
        None \<Rightarrow> False
      | Some n \<Rightarrow>
         (case GetMethodDeclaringClass env m of
            None \<Rightarrow> False
          | Some c \<Rightarrow> GetClassSignature env c \<noteq> None))"

text \<open>The type name is on the list of types to report even when caught.\<close>

definition on_allow_list :: "jvm \<Rightarrow> string \<Rightarrow> bool" where
  "on_allow_list env type_name =
     (case reportedCaughExceptionTypes env of
        None \<Rightarrow> False
      | Some types \<Rightarrow> type_name \<in> set types)"

text \<open>
  A well-formed ring, and its slots read from the oldest to the newest (the slot
  \<open>cb_end\<close> is the oldest).
\<close>

definition ring_ok :: "T_jthrowableCircularBuf \<Rightarrow> bool" where
  "ring_ok b =
     (0 < cb_capacity b \<and> length (cb_mem b) = cb_capacity b \<and> cb_end b < cb_capacity b)"

definition ring_contents :: "T_jthrowableCircularBuf \<Rightarrow> jobject option list" where
  "ring_contents b = drop (cb_end b) (cb_mem b) @ take (cb_end b) (cb_mem b)"

section \<open>Runs of events on one thread\<close>





text \<open>The dedup buffer of the thread exists and holds \<open>E\<close>.\<close>

definition in_dedup_window :: "agent_state \<Rightarrow> jlong \<Rightarrow> jobject \<Rightarrow> bool" where
  "in_dedup_window s tid E =
     (case threadMap s of
        None \<Rightarrow> False
      | Some tm \<Rightarrow> already_reported (jthread_map_get tm tid) E)"


text \<open>Every dedup buffer of the state is a well-formed ring.\<close>

definition buffers_ok :: "agent_state \<Rightarrow> bool" where
  "buffers_ok s =
     (case threadMap s of
        None \<Rightarrow> True
      | Some tm \<Rightarrow> list_all (\<lambda>(tid, buf). ring_ok buf) tm)"

section \<open>A concrete run\<close>

text \<open>
  A JVM in which every lookup succeeds: thread \<open>n\<close> has identifier \<open>n\<close>, every
  method is \<open>run\<close> of class 1 (\<open>com.example.Main\<close>), every exception is a
  \<open>java.lang.IllegalStateException\<close>, and \<open>equals\<close> is identity of handles.
\<close>

definition example_jvm :: "string list option \<Rightarrow> jvm" where
  "example_jvm types =
     \<lparr>Thread_getId = (\<lambda>thr. Some (of_nat thr)),
      GetMethodName = (\<lambda>m. Some ''run''),
      GetMethodDeclaringClass = (\<lambda>m. Some 1),
      GetClassSignature =
        (\<lambda>c. Some (if c = 1 then ''Lcom/example/Main;''
                     else ''Ljava/lang/IllegalStateException;'')),
      GetObjectClass = (\<lambda>ob. 2),
      Object_equals = (\<lambda>a b. Some (a = b)),
      FindClass_Object = True,
      GetMethodID_equals = True,
      generate_thread_stack_trace = (\<lambda>thr ob. (Some ''trace'', None)),
      collect_additional_debug_information = None,
      calloc_message_ok = True,
      malloc_report_ok = True,
      circular_buf_alloc_ok = True,
      reportedCaughExceptionTypes = types,
      executable_thread_flag = False,
      main_class = Some ''Main''\<rparr>"

text \<open>The state \<open>Agent_OnLoad\<close> leaves: both maps created and empty.\<close>

definition initial_state :: agent_state where
  "initial_state =
     \<lparr>threadMap = Some jthread_map_new, uncaughtExceptionMap = jthread_map_new, reported = []\<rparr>"

text \<open>
  Thread 7 with a pending record for exception 100, and thread 7 with exception 100
  in its dedup buffer.
\<close>

definition pending_100 :: T_exceptionReport where
  "pending_100 =
     \<lparr>rpt_message = Some ''Uncaught exception E in method C.m()'',
      rpt_stacktrace = Some ''trace'', rpt_executable = None,
      rpt_exception_type_name = Some ''java.lang.IllegalStateException'',
      rpt_additional_info = None, rpt_exception_object = 100\<rparr>"

definition pending_state :: agent_state where
  "pending_state = initial_state\<lparr>uncaughtExceptionMap := [(7, pending_100)]\<rparr>"

definition reported_state :: agent_state where
  "reported_state =
     initial_state\<lparr>threadMap :=
       Some [(7, jthrowable_circular_buf_push
                   (jthrowable_circular_buf_new REPORTED_EXCEPTION_STACK_CAPACITY) 100)]\<rparr>"

text \<open>
  The same JVM with the allocation of the pending record failing, and (with the
  exception type on the list of types to report when caught) with thread
  identifiers that cannot be read.
\<close>

definition failing_malloc_jvm :: jvm where
  "failing_malloc_jvm = (example_jvm None)\<lparr>malloc_report_ok := False\<rparr>"


section \<open>Facts about the reason formatter\<close>

lemma strrchr_None_iff: "strrchr s c = None \<longleftrightarrow> c \<notin> set s"
  by (induction s) (auto split: option.splits)

lemma strrchr_tl_None: "strrchr s c = Some ptr \<Longrightarrow> strrchr (tl ptr) c = None"
  by (induction s) (auto split: option.splits if_splits)

lemma strip_namespace_length: "length (strip_namespace s) \<le> length s"
  by (auto simp: strip_namespace_def split: option.splits dest: strrchr_length)

lemma strip_namespace_no_dot: "strrchr (strip_namespace s) CHR ''.'' = None"
  by (auto simp: strip_namespace_def split: option.splits dest: strrchr_tl_None)

lemma strip_namespace_idem: "strrchr s CHR ''.'' = None \<Longrightarrow> strip_namespace s = s"
  by (simp add: strip_namespace_def)

lemma reason_text_nonempty [simp]: "reason_text p e c m \<noteq> []"
  by (simp add: reason_text_def)

lemma strip_namespace_Nil [simp]: "strip_namespace [] = []"
  by (simp add: strip_namespace_def)

lemma body_fits': "fits_budget (reason_text p e c m) \<Longrightarrow>
   reason_loop_body p e c m = Return (Some (reason_text p e c m))"
  by (simp add: fits_budget_def reason_loop_body_def snprintf_def INT_MAX_def
      MAX_REASON_MESSAGE_STRING_LENGTH_def)

lemma body_over:
  "\<not> fits_budget (reason_text p e c m) \<Longrightarrow> in_int_range (reason_text p e c m) \<Longrightarrow>
   reason_loop_body p e c m =
     (case strrchr c CHR ''.'' of
        Some ptr \<Rightarrow> Continue e (tl ptr)
      | None \<Rightarrow>
         (case strrchr e CHR ''.'' of
            Some ptr \<Rightarrow> Continue (tl ptr) c
          | None \<Rightarrow> if c \<noteq> [] then Continue e []
                    else Return (Some (take 254 (reason_text p e c m)))))"
  by (simp add: fits_budget_def in_int_range_def reason_loop_body_def snprintf_def
      MAX_REASON_MESSAGE_STRING_LENGTH_def split: option.splits)

lemma in_int_range_mono:
  "in_int_range (reason_text p e c m) \<Longrightarrow> length e' \<le> length e \<Longrightarrow> length c' \<le> length c \<Longrightarrow>
   (c = [] \<longrightarrow> c' = []) \<Longrightarrow> in_int_range (reason_text p e' c' m)"
  by (auto simp: in_int_range_def reason_text_def)

lemma loop_C:
  assumes "strrchr e CHR ''.'' = None" "in_int_range (reason_text p e [] m)"
  shows "reason_loop p e [] m =
     Some (if fits_budget (reason_text p e [] m) then reason_text p e [] m
           else take 254 (reason_text p e [] m))"
  using assms by (subst reason_loop.simps) (simp add: body_fits' body_over)

lemma loop_B:
  assumes "strrchr c CHR ''.'' = None" "strrchr e CHR ''.'' = None"
    "in_int_range (reason_text p e c m)"
  shows "reason_loop p e c m =
     Some (if fits_budget (reason_text p e c m) then reason_text p e c m
           else if fits_budget (reason_text p e [] m) then reason_text p e [] m
           else take 254 (reason_text p e [] m))"
proof (cases "c = []")
  case True
  with assms show ?thesis by (simp add: loop_C)
next
  case False
  have "in_int_range (reason_text p e [] m)"
    using assms(3) by (rule in_int_range_mono) simp_all
  with assms False show ?thesis
    by (subst reason_loop.simps) (simp add: body_fits' body_over loop_C)
qed

lemma loop_A:
  assumes "strrchr c CHR ''.'' = None" "in_int_range (reason_text p e c m)"
  shows "reason_loop p e c m =
     Some (if fits_budget (reason_text p e c m) then reason_text p e c m
           else if fits_budget (reason_text p (strip_namespace e) c m)
             then reason_text p (strip_namespace e) c m
           else if fits_budget (reason_text p (strip_namespace e) [] m)
             then reason_text p (strip_namespace e) [] m
           else take 254 (reason_text p (strip_namespace e) [] m))"
proof (cases "strrchr e CHR ''.''")
  case None
  with assms show ?thesis by (simp add: loop_B strip_namespace_idem)
next
  case (Some ptr)
  have r: "in_int_range (reason_text p (strip_namespace e) c m)"
    using assms(2) by (rule in_int_range_mono) (simp_all add: strip_namespace_length)
  have t: "tl ptr = strip_namespace e"
    using Some by (simp add: strip_namespace_def)
  show ?thesis
  proof (cases "fits_budget (reason_text p e c m)")
    case True
    then show ?thesis by (subst reason_loop.simps) (simp add: body_fits')
  next
    case False
    have "reason_loop p e c m = reason_loop p (strip_namespace e) c m"
      using False assms Some t by (subst reason_loop.simps) (simp add: body_over)
    also have "\<dots> = Some (if fits_budget (reason_text p (strip_namespace e) c m)
             then reason_text p (strip_namespace e) c m
           else if fits_budget (reason_text p (strip_namespace e) [] m)
             then reason_text p (strip_namespace e) [] m
           else take 254 (reason_text p (strip_namespace e) [] m))"
      using assms(1) r by (simp add: loop_B strip_namespace_no_dot)
    finally show ?thesis using False by simp
  qed
qed

lemma loop_full:
  assumes "in_int_range (reason_text p e c m)"
  shows "reason_loop p e c m =
     Some (if fits_budget (reason_text p e c m) then reason_text p e c m
           else if fits_budget (reason_text p e (strip_namespace c) m)
             then reason_text p e (strip_namespace c) m
           else if fits_budget (reason_text p (strip_namespace e) (strip_namespace c) m)
             then reason_text p (strip_namespace e) (strip_namespace c) m
           else if fits_budget (reason_text p (strip_namespace e) [] m)
             then reason_text p (strip_namespace e) [] m
           else take 254 (reason_text p (strip_namespace e) [] m))"
proof (cases "strrchr c CHR ''.''")
  case None
  with assms show ?thesis by (simp add: loop_A strip_namespace_idem)
next
  case (Some ptr)
  have r: "in_int_range (reason_text p e (strip_namespace c) m)"
    using assms by (rule in_int_range_mono) (simp_all add: strip_namespace_length)
  have t: "tl ptr = strip_namespace c"
    using Some by (simp add: strip_namespace_def)
  show ?thesis
  proof (cases "fits_budget (reason_text p e c m)")
    case True
    then show ?thesis by (subst reason_loop.simps) (simp add: body_fits')
  next
    case False
    have "reason_loop p e c m = reason_loop p e (strip_namespace c) m"
      using False assms Some t by (subst reason_loop.simps) (simp add: body_over)
    then show ?thesis
      using False r by (simp add: loop_A strip_namespace_no_dot)
  qed
qed

lemma format_refines:
  assumes "calloc_ok"
    "in_int_range (reason_text (if caught then ''Caught'' else ''Uncaught'') e c m)"
  shows "format_exception_reason_message calloc_ok caught e c m =
         Some (ReasonFormatter_build caught e c m)"
  using assms
  by (simp add: format_exception_reason_message_def ReasonFormatter_build_def Let_def loop_full)

lemma ReasonFormatter_build_length: "length (ReasonFormatter_build caught e c m) < 255"
  by (simp add: ReasonFormatter_build_def Let_def fits_budget_def)

lemma body_Return_Some:
  "reason_loop_body p e c m = Return (Some s) \<Longrightarrow> s = take 254 (reason_text p e c m)"
  by (auto simp: reason_loop_body_def snprintf_def MAX_REASON_MESSAGE_STRING_LENGTH_def
      split: if_splits option.splits)

lemma reason_loop_Some:
  "reason_loop p e c m = Some s \<Longrightarrow> \<exists>e' c'. s = take 254 (reason_text p e' c' m)"
proof (induction p e c m rule: reason_loop.induct)
  case (1 p e c m)
  show ?case
  proof (cases "reason_loop_body p e c m")
    case (Return r)
    with "1.prems" show ?thesis
      by (subst (asm) reason_loop.simps) (auto dest: body_Return_Some)
  next
    case (Continue e' c')
    with "1.prems" have "reason_loop p e' c' m = Some s"
      by (subst (asm) reason_loop.simps) simp
    with Continue "1.IH" show ?thesis by blast
  qed
qed

lemma format_Some_length:
  "format_exception_reason_message calloc_ok caught e c m = Some s \<Longrightarrow> length s < 255"
  by (auto simp: format_exception_reason_message_def Let_def split: if_splits
      dest!: reason_loop_Some)

lemma format_Some_prefix:
  "format_exception_reason_message calloc_ok caught e c m = Some s \<Longrightarrow>
   starts_with (if caught then ''Caught exception '' else ''Uncaught exception '') s"
  by (auto simp: format_exception_reason_message_def Let_def reason_text_def starts_with_def
      split: if_splits dest!: reason_loop_Some)

lemma body_overflow:
  "\<not> in_int_range (reason_text p e c m) \<Longrightarrow> reason_loop_body p e c m = Return None"
  by (simp add: in_int_range_def reason_loop_body_def snprintf_def)

lemma format_None_iff:
  "format_exception_reason_message calloc_ok caught e c m = None \<longleftrightarrow>
   \<not> calloc_ok \<or> \<not> in_int_range (reason_text (if caught then ''Caught'' else ''Uncaught'') e c m)"
proof (cases "calloc_ok \<and> in_int_range (reason_text (if caught then ''Caught'' else ''Uncaught'') e c m)")
  case True
  then show ?thesis using format_refines [of calloc_ok caught e c m] by simp
next
  case False
  then show ?thesis
    by (auto simp: format_exception_reason_message_def Let_def reason_loop.simps [of _ e c m]
        body_overflow)
qed

lemma body_Continue_cases:
  "reason_loop_body p e c m = Continue e' c' \<Longrightarrow>
   (e' = e \<and> strrchr c CHR ''.'' \<noteq> None \<and> c' = strip_namespace c)
   \<or> (c' = c \<and> strrchr c CHR ''.'' = None \<and> strrchr e CHR ''.'' \<noteq> None \<and> e' = strip_namespace e)
   \<or> (e' = e \<and> strrchr c CHR ''.'' = None \<and> strrchr e CHR ''.'' = None \<and> c \<noteq> [] \<and> c' = [])"
  by (auto simp: reason_loop_body_def snprintf_def strip_namespace_def split: if_splits option.splits)

lemma body_Continue_steps_left:
  "reason_loop_body p e c m = Continue e' c' \<Longrightarrow>
   shrink_steps_left e' c' < shrink_steps_left e c"
  by (drule body_Continue_cases) (auto simp: shrink_steps_left_def strip_namespace_no_dot)

lemma fuel_enough:
  "shrink_steps_left e c < n \<Longrightarrow> reason_loop_fuel n p e c m = Some (reason_loop p e c m)"
proof (induction n arbitrary: e c)
  case 0
  then show ?case by simp
next
  case (Suc n)
  show ?case
  proof (cases "reason_loop_body p e c m")
    case (Return r)
    then show ?thesis by (simp add: reason_loop.simps [of p e c m])
  next
    case (Continue e' c')
    then have "shrink_steps_left e' c' < n"
      using body_Continue_steps_left [OF Continue] Suc.prems by simp
    then show ?thesis using Continue Suc.IH by (simp add: reason_loop.simps [of p e c m])
  qed
qed

lemma shrink_steps_left_le: "shrink_steps_left e c \<le> 3"
  by (simp add: shrink_steps_left_def)


section \<open>Claims about the reason formatter\<close>

text \<open>
  C10. The shrink-and-re-render loop of the reason formatter terminates for every
  input: a pass that does not return keeps one of the two names and strictly
  shortens the other (the class-name suffix or the exception-name suffix in use, or
  the class name becomes empty), and the loop returns within four passes.
\<close>

theorem reason_loop_terminates:
  "(reason_loop_body prefix exception_name class_name method = Continue e' c' \<longrightarrow>
      (e' = exception_name \<and> length c' < length class_name)
      \<or> (c' = class_name \<and> length e' < length exception_name))
   \<and> reason_loop_fuel 4 prefix exception_name class_name method
       = Some (reason_loop prefix exception_name class_name method)"
proof -
  have "shrink_steps_left exception_name class_name < 4"
    using shrink_steps_left_le [of exception_name class_name] by simp
  then have "reason_loop_fuel 4 prefix exception_name class_name method
       = Some (reason_loop prefix exception_name class_name method)"
    by (rule fuel_enough)
  moreover have "reason_loop_body prefix exception_name class_name method = Continue e' c' \<longrightarrow>
      (e' = exception_name \<and> length c' < length class_name)
      \<or> (c' = class_name \<and> length e' < length exception_name)"
    by (auto simp: reason_loop_body_def snprintf_def split: if_splits option.splits
        dest: strrchr_length)
  ultimately show ?thesis by simp
qed

theorem reason_loop_terminates_witness:
  "reason_loop_body ''Uncaught'' ''java.lang.E'' (''com.ex.'' @ replicate 250 CHR ''a'') ''m''
     = Continue ''java.lang.E'' (replicate 250 CHR ''a'')
   \<and> length (replicate 250 CHR ''a'') < length (''com.ex.'' @ replicate 250 CHR ''a'')
   \<and> reason_loop_fuel 4 ''Uncaught'' ''java.lang.E'' (''com.ex.'' @ replicate 250 CHR ''a'') ''m''
       = Some (Some ''Uncaught exception E in method m()'')"
proof -
  have b: "reason_loop_body ''Uncaught'' ''java.lang.E'' (''com.ex.'' @ replicate 250 CHR ''a'') ''m''
     = Continue ''java.lang.E'' (replicate 250 CHR ''a'')"
    by code_simp
  have r: "reason_loop ''Uncaught'' ''java.lang.E'' (''com.ex.'' @ replicate 250 CHR ''a'') ''m''
     = Some ''Uncaught exception E in method m()''"
    by code_simp
  show ?thesis
    using reason_loop_terminates [of "''Uncaught''" "''java.lang.E''"
        "''com.ex.'' @ replicate 250 CHR ''a''" "''m''" "''java.lang.E''" "replicate 250 CHR ''a''"]
      b r by simp
qed

text \<open>
  C3. Whatever the caught flag and the three names are, the string the reason
  formatter builds is at most 255 bytes long; and it is the string the
  specification's wording gives: render, and while the text meets or exceeds the
  budget strip the class namespace, then the fault-type namespace, then drop the
  class qualifier, rendering again after each step.
\<close>

theorem format_reason_bounded_in_priority_order:
  "(\<forall>s. format_exception_reason_message calloc_ok caught exception_fqdn class_fqdn method = Some s
        \<longrightarrow> length s \<le> 255)
   \<and> (calloc_ok \<and> int (length (reason_text (if caught then ''Caught'' else ''Uncaught'')
                                exception_fqdn class_fqdn method)) \<le> INT_MAX
      \<longrightarrow> format_exception_reason_message calloc_ok caught exception_fqdn class_fqdn method
          = Some (ReasonFormatter_build caught exception_fqdn class_fqdn method))"
  using format_refines [of calloc_ok caught exception_fqdn class_fqdn "method"]
  by (auto simp: in_int_range_def dest: format_Some_length)

theorem format_reason_bounded_in_priority_order_witness:
  "format_exception_reason_message True False ''java.lang.E''
       (''com.ex.'' @ replicate 250 CHR ''a'') ''m''
     = Some ''Uncaught exception E in method m()''
   \<and> ReasonFormatter_build False ''java.lang.E'' (''com.ex.'' @ replicate 250 CHR ''a'') ''m''
     = ''Uncaught exception E in method m()''
   \<and> length ''Uncaught exception E in method m()'' \<le> (255::nat)"
proof -
  have b: "ReasonFormatter_build False ''java.lang.E'' (''com.ex.'' @ replicate 250 CHR ''a'') ''m''
     = ''Uncaught exception E in method m()''"
    by code_simp
  have i: "int (length (reason_text (if False then ''Caught'' else ''Uncaught'')
              ''java.lang.E'' (''com.ex.'' @ replicate 250 CHR ''a'') ''m'')) \<le> INT_MAX"
    by (simp add: reason_text_def INT_MAX_def)
  show ?thesis
    using format_reason_bounded_in_priority_order [of True False "''java.lang.E''"
        "''com.ex.'' @ replicate 250 CHR ''a''" "''m''"] b i
    by simp
qed

text \<open>
  C4, as stated: the reason formatter never fails and has no error result. It has
  one: with the allocation of the buffer failing it returns NULL.
\<close>

theorem format_reason_null_on_failed_allocation:
  "format_exception_reason_message False True ''java.lang.E'' ''com.ex.C'' ''m'' = None"
  by (simp add: format_exception_reason_message_def)

text \<open>
  C4, amended. The reason formatter returns NULL exactly when the allocation of its
  buffer fails or the rendered length does not fit an \<open>int\<close> (\<open>snprintf\<close> then
  reports a negative length); in every other case it returns a string, cut to the
  buffer when all shrink steps are used up.
\<close>

theorem format_reason_returns_unless_allocation_or_snprintf_fails:
  "(format_exception_reason_message calloc_ok caught exception_fqdn class_fqdn method = None)
   = (\<not> calloc_ok
      \<or> INT_MAX < int (length (reason_text (if caught then ''Caught'' else ''Uncaught'')
                                 exception_fqdn class_fqdn method)))"
  using format_None_iff [of calloc_ok caught exception_fqdn class_fqdn "method"]
  by (auto simp: in_int_range_def)

theorem format_reason_returns_unless_allocation_or_snprintf_fails_witness:
  "format_exception_reason_message True True ''E'' [] (replicate 300 CHR ''m'') \<noteq> None
   \<and> \<not> INT_MAX < int (length (reason_text ''Caught'' ''E'' [] (replicate 300 CHR ''m'')))"
  using format_reason_returns_unless_allocation_or_snprintf_fails
          [of True True "''E''" "[]" "replicate 300 CHR ''m''"]
  by (simp add: reason_text_def INT_MAX_def)

section \<open>Facts about the dedup ring\<close>

lemma ring_ok_new: "0 < K \<Longrightarrow> ring_ok (jthrowable_circular_buf_new K)"
  by (simp add: ring_ok_def jthrowable_circular_buf_new_def)

lemma ring_ok_push: "ring_ok b \<Longrightarrow> ring_ok (jthrowable_circular_buf_push b x)"
  by (simp add: ring_ok_def jthrowable_circular_buf_push_def)

lemma ring_contents_new: "ring_contents (jthrowable_circular_buf_new K) = replicate K None"
  by (simp add: ring_contents_def jthrowable_circular_buf_new_def)

lemma ring_contents_push:
  assumes "ring_ok b"
  shows "ring_contents (jthrowable_circular_buf_push b x) = tl (ring_contents b) @ [Some x]"
proof -
  define n where "n = cb_end b"
  define A where "A = take n (cb_mem b)"
  define B where "B = drop (Suc n) (cb_mem b)"
  have n: "n < length (cb_mem b)" "length (cb_mem b) = cb_capacity b"
    using assms by (simp_all add: ring_ok_def n_def)
  have mem: "cb_mem b = A @ (cb_mem b ! n) # B"
    unfolding A_def B_def using n(1) by (rule id_take_nth_drop)
  have mem': "(cb_mem b)[n := Some x] = A @ Some x # B"
    unfolding A_def B_def using n(1) by (rule upd_conv_take_nth_drop)
  have lA: "length A = n" using n(1) by (simp add: A_def)
  have old: "ring_contents b = (cb_mem b ! n) # B @ A"
    unfolding ring_contents_def n_def [symmetric]
    by (subst (1 2) mem) (simp add: lA)
  have cap: "cb_capacity b = Suc (n + length B)"
    using n(2) lA by (subst (asm) mem) simp
  show ?thesis
  proof (cases "B = []")
    case True
    then have "(n + 1) mod cb_capacity b = 0" using cap by simp
    then show ?thesis
      using True old mem'
      by (simp add: ring_contents_def jthrowable_circular_buf_push_def n_def [symmetric])
  next
    case False
    then have "(n + 1) mod cb_capacity b = Suc n" using cap by (cases B) simp_all
    then show ?thesis
      using old mem' lA
      by (simp add: ring_contents_def jthrowable_circular_buf_push_def n_def [symmetric])
  qed
qed

lemma set_ring_contents: "set (ring_contents b) = set (cb_mem b)"
proof -
  have "set (ring_contents b)
      = set (take (cb_end b) (cb_mem b)) \<union> set (drop (cb_end b) (cb_mem b))"
    by (simp add: ring_contents_def Un_commute)
  also have "\<dots> = set (take (cb_end b) (cb_mem b) @ drop (cb_end b) (cb_mem b))"
    by (simp only: set_append)
  also have "\<dots> = set (cb_mem b)"
    by (simp only: append_take_drop_id)
  finally show ?thesis .
qed

lemma find_ring_contents:
  "jthrowable_circular_buf_find b x = (Some x \<in> set (ring_contents b))"
  by (simp add: set_ring_contents jthrowable_circular_buf_find_def)

lemma cb_capacity_push [simp]:
  "cb_capacity (jthrowable_circular_buf_push b x) = cb_capacity b"
  by (simp add: jthrowable_circular_buf_push_def)

lemma ring_after_pushes:
  assumes "0 < K"
  shows "ring_ok (foldl jthrowable_circular_buf_push (jthrowable_circular_buf_new K) xs)
       \<and> cb_capacity (foldl jthrowable_circular_buf_push (jthrowable_circular_buf_new K) xs) = K
       \<and> ring_contents (foldl jthrowable_circular_buf_push (jthrowable_circular_buf_new K) xs)
           = drop (length xs) (replicate K None @ map Some xs)"
proof (induction xs rule: rev_induct)
  case Nil
  show ?case using assms
    by (simp add: ring_ok_new ring_contents_new) (simp add: jthrowable_circular_buf_new_def)
next
  case (snoc x xs)
  define b where "b = foldl jthrowable_circular_buf_push (jthrowable_circular_buf_new K) xs"
  define L where "L = replicate K (None :: jobject option) @ map Some xs"
  from snoc have ok: "ring_ok b" and cap: "cb_capacity b = K"
    and c: "ring_contents b = drop (length xs) L"
    by (simp_all add: b_def L_def)
  have "ring_contents (jthrowable_circular_buf_push b x) = tl (drop (length xs) L) @ [Some x]"
    using ok c by (simp add: ring_contents_push)
  also have "tl (drop (length xs) L) = drop (Suc (length xs)) L"
    by (simp add: drop_Suc tl_drop)
  also have "drop (Suc (length xs)) L @ [Some x] = drop (Suc (length xs)) (L @ [Some x])"
    using assms by (simp add: L_def)
  finally have "ring_contents (jthrowable_circular_buf_push b x)
      = drop (length (xs @ [x])) (replicate K None @ map Some (xs @ [x]))"
    by (simp add: L_def)
  then show ?case
    using ok cap by (simp add: b_def [symmetric] ring_ok_push)
qed

lemma find_after_pushes:
  assumes "0 < K"
  shows "jthrowable_circular_buf_find
           (foldl jthrowable_circular_buf_push (jthrowable_circular_buf_new K) xs) x
         = (x \<in> set (drop (length xs - K) xs))"
proof -
  have "Some x \<in> set (drop (length xs) (replicate K None @ map Some xs))
        \<longleftrightarrow> Some x \<in> set (drop (length xs - K) (map Some xs))"
    by (auto dest: in_set_dropD)
  also have "\<dots> \<longleftrightarrow> x \<in> set (drop (length xs - K) xs)"
    by (auto simp: drop_map)
  finally show ?thesis
    using ring_after_pushes [OF assms, of xs] by (simp add: find_ring_contents)
qed

section \<open>Facts about the maps and the handlers\<close>

lemma jthread_map_get_push [simp]:
  "jthread_map_get (jthread_map_push m tid x) tid' = (if tid' = tid then Some x else jthread_map_get m tid')"
  by (simp add: jthread_map_get_def jthread_map_push_def update_conv')

lemma jthread_map_get_nonempty: "jthread_map_get m tid = Some x \<Longrightarrow> \<not> jthread_map_empty m"
  by (cases m) (auto simp: jthread_map_get_def jthread_map_empty_def)

lemma jthread_map_pop_conv: "jthread_map_pop m tid = (jthread_map_get m tid, AList.delete tid m)"
  by (simp add: jthread_map_pop_def jthread_map_get_def)

lemma jthread_map_get_delete [simp]:
  "jthread_map_get (AList.delete tid m) tid' = (if tid' = tid then None else jthread_map_get m tid')"
  by (simp add: jthread_map_get_def delete_conv')

lemma jthread_map_get_update [simp]:
  "jthread_map_get (AList.update tid x m) tid' = (if tid' = tid then Some x else jthread_map_get m tid')"
  by (simp add: jthread_map_get_def update_conv')

lemma lookup_threads_exc_buf_Some:
  "threadMap s = Some tm \<Longrightarrow> get_tid env thr = Some tid \<Longrightarrow>
   lookup_threads_exc_buf env thr s = (tid, jthread_map_get tm tid)"
  by (simp add: lookup_threads_exc_buf_def)

lemma on_exception_uncaught:
  assumes "threadMap s = Some tm" "get_tid env thr = Some tid"
    "\<not> already_reported (jthread_map_get tm tid) E"
    "GetMethodName env m = Some method_name"
    "GetMethodDeclaringClass env m = Some method_class"
    "GetClassSignature env method_class = Some class_signature"
    "get_exception_type_name env E = Some type_name"
    "malloc_report_ok env"
  shows "callback_on_exception env thr m E None s =
     Some (s\<lparr>uncaughtExceptionMap := jthread_map_push (uncaughtExceptionMap s) tid
        \<lparr>rpt_message = format_exception_reason_message (calloc_message_ok env) False type_name
                         (butlast (format_class_name class_signature CHR ''.'')) method_name,
         rpt_stacktrace = fst (generate_thread_stack_trace env thr E),
         rpt_executable = (if executable_thread_flag env
                           then snd (generate_thread_stack_trace env thr E) else None),
         rpt_exception_type_name = Some type_name,
         rpt_additional_info = collect_additional_debug_information env,
         rpt_exception_object = E\<rparr>\<rparr>)"
  using assms
  by (simp add: callback_on_exception_def lookup_threads_exc_buf_Some Let_def split_def)

lemma on_thread_end_pending:
  assumes "threadMap s = Some tm" "get_tid env thr = Some tid"
    "jthread_map_get (uncaughtExceptionMap s) tid = Some r"
  shows "callback_on_thread_end env thr s =
     (let s1 = s\<lparr>threadMap := Some (AList.delete tid tm),
                 uncaughtExceptionMap := AList.delete tid (uncaughtExceptionMap s)\<rparr>
      in if \<not> already_reported (jthread_map_get tm tid) (rpt_exception_object r)
         then Some (report_stacktrace
                 (case rpt_executable r of None \<Rightarrow> main_class env | Some e \<Rightarrow> Some e)
                 (case rpt_message r of None \<Rightarrow> ''Uncaught exception'' | Some m \<Rightarrow> m)
                 (rpt_stacktrace r) (rpt_additional_info r) s1)
         else Some s1)"
  using assms jthread_map_get_nonempty [OF assms(3)]
  by (simp add: callback_on_thread_end_def jthread_map_pop_conv Let_def)

lemma on_thread_end_no_pending:
  assumes "jthread_map_get (uncaughtExceptionMap s) tid = None" "get_tid env thr = Some tid"
  shows "\<exists>s'. callback_on_thread_end env thr s = Some s' \<and> reported s' = reported s"
  using assms
  by (auto simp: callback_on_thread_end_def jthread_map_pop_conv Let_def split: option.splits)

lemma starts_with_append: "starts_with (p @ q) s \<Longrightarrow> starts_with p s"
  unfolding starts_with_def
  by (metis append_eq_conv_conj length_append take_add take_all_iff take_take min.cobounded1 append_take_drop_id)

lemma message_Uncaught:
  "starts_with ''Uncaught''
     (case format_exception_reason_message ok False e c m of
        None \<Rightarrow> ''Uncaught exception'' | Some x \<Rightarrow> x)"
proof (cases "format_exception_reason_message ok False e c m")
  case None
  then show ?thesis by (simp add: starts_with_def)
next
  case (Some x)
  then have "starts_with (''Uncaught'' @ '' exception '') x"
    using format_Some_prefix [of ok False e c m x] by simp
  then show ?thesis using Some by (simp add: starts_with_append del: append.simps)
qed

lemma message_Caught:
  "starts_with ''Caught''
     (case format_exception_reason_message ok True e c m of
        None \<Rightarrow> ''Caught exception'' | Some x \<Rightarrow> x)"
proof (cases "format_exception_reason_message ok True e c m")
  case None
  then show ?thesis by (simp add: starts_with_def)
next
  case (Some x)
  then have "starts_with (''Caught'' @ '' exception '') x"
    using format_Some_prefix [of ok True e c m x] by simp
  then show ?thesis using Some by (simp add: starts_with_append del: append.simps)
qed

lemma method_resolvedE:
  assumes "method_resolved env m"
  obtains n c sig where "GetMethodName env m = Some n" "GetMethodDeclaringClass env m = Some c"
    "GetClassSignature env c = Some sig"
  using assms by (auto simp: method_resolved_def split: option.splits)

lemma push_reported_exception_Some:
  assumes "threadMap s = Some tm"
  shows "\<exists>s'. push_reported_exception env tid b e s = Some s' \<and> reported s' = reported s
     \<and> uncaughtExceptionMap s' = uncaughtExceptionMap s \<and> threadMap s' \<noteq> None"
  using assms
  by (auto simp: push_reported_exception_def create_exception_buf_for_thread_def Let_def
      split: option.splits)

lemma intended_known_type:
  "exception_is_intended_to_be_reported env E (Some tn) = (on_allow_list env tn, Some tn)"
  by (simp add: exception_is_intended_to_be_reported_def on_allow_list_def split: option.splits)

lemma on_catch_match:
  assumes "threadMap s = Some tm" "get_tid env thr = Some tid"
    "jthread_map_get (uncaughtExceptionMap s) tid = Some rpt"
    "rpt_exception_type_name rpt = Some tn"
    "FindClass_Object env" "GetMethodID_equals env"
    "Object_equals env e (rpt_exception_object rpt) = Some True"
    "\<not> already_reported (jthread_map_get tm tid) (rpt_exception_object rpt)"
    "method_resolved env m"
  shows "\<exists>s'. callback_on_exception_catch env thr m e s = Some s'
     \<and> (if on_allow_list env tn
         then \<exists>r. reported s' = reported s @ [r] \<and> starts_with ''Caught'' (rs_message r)
         else reported s' = reported s)
     \<and> uncaughtExceptionMap s' = AList.delete tid (uncaughtExceptionMap s)
     \<and> threadMap s' \<noteq> None"
proof -
  from assms(9) obtain n c sig where l: "GetMethodName env m = Some n"
    "GetMethodDeclaringClass env m = Some c" "GetClassSignature env c = Some sig"
    by (rule method_resolvedE)
  define s1 where "s1 = s\<lparr>uncaughtExceptionMap := AList.delete tid (uncaughtExceptionMap s)\<rparr>"
  define msg where "msg =
     (case format_exception_reason_message (calloc_message_ok env) True tn
             (format_class_name sig (CHR 0x00)) n of
        None \<Rightarrow> ''Caught exception'' | Some x \<Rightarrow> x)"
  define s2 where "s2 = report_stacktrace
             (case rpt_executable rpt of None \<Rightarrow> main_class env | Some e \<Rightarrow> Some e)
             msg (rpt_stacktrace rpt) (rpt_additional_info rpt) s1"
  have tm2: "threadMap s2 = Some tm"
    using assms(1) by (simp add: s2_def s1_def report_stacktrace_def)
  have ne: "\<not> jthread_map_empty (uncaughtExceptionMap s)"
    using assms(3) by (rule jthread_map_get_nonempty)
  have lk: "lookup_threads_exc_buf env thr s1 = (tid, jthread_map_get tm tid)"
    using assms(1,2) by (simp add: lookup_threads_exc_buf_def s1_def)
  have c: "callback_on_exception_catch env thr m e s =
       (if on_allow_list env tn
        then push_reported_exception env tid (jthread_map_get tm tid) (rpt_exception_object rpt) s2
        else Some s1)"
    using assms ne l lk
    by (simp add: callback_on_exception_catch_def jthread_map_pop_conv intended_known_type
        s1_def [symmetric] s2_def msg_def Let_def)
  from push_reported_exception_Some [OF tm2]
  obtain s3 where s3: "push_reported_exception env tid (jthread_map_get tm tid)
      (rpt_exception_object rpt) s2 = Some s3" "reported s3 = reported s2"
     "uncaughtExceptionMap s3 = uncaughtExceptionMap s2" "threadMap s3 \<noteq> None"
    by blast
  have m: "starts_with ''Caught'' msg" by (simp add: msg_def message_Caught)
  show ?thesis
  proof (cases "on_allow_list env tn")
    case True
    then show ?thesis using c s3 m
      by (simp add: s2_def s1_def report_stacktrace_def)
  next
    case False
    then show ?thesis using c assms(1) by (simp add: s1_def)
  qed
qed

lemma example_type_name:
  "get_exception_type_name (example_jvm types) ob = Some ''java.lang.IllegalStateException''"
proof -
  have "format_class_name ''Ljava/lang/IllegalStateException;'' (CHR 0x00)
        = ''java.lang.IllegalStateException''"
    by code_simp
  then show ?thesis by (simp add: get_exception_type_name_def example_jvm_def)
qed

lemma example_get_tid: "get_tid (example_jvm types) 7 = Some 7"
  by (simp add: get_tid_def example_jvm_def)

lemma example_method_resolved: "method_resolved (example_jvm types) m"
  by (simp add: method_resolved_def example_jvm_def)

section \<open>Claims about the dedup ring\<close>

text \<open>
  C9. A dedup buffer has a fixed capacity K, given at construction (the handlers
  construct it with the default 5), and retains exactly the K most recent pushed
  identities, the oldest slot being overwritten on overflow. With capacity 2, after
  push(A), push(B), push(C): find(A) is false (A being neither B nor C), find(B) and
  find(C) are true.
\<close>

theorem dedup_buffer_keeps_most_recent:
  "(0 < K \<longrightarrow>
      jthrowable_circular_buf_find
        (foldl jthrowable_circular_buf_push (jthrowable_circular_buf_new K) xs) x
      = (x \<in> set (drop (length xs - K) xs))
    \<and> cb_capacity (foldl jthrowable_circular_buf_push (jthrowable_circular_buf_new K) xs) = K)
   \<and> (\<forall>buf s'. create_exception_buf_for_thread env tid s = Some (Some buf, s')
        \<longrightarrow> buf = jthrowable_circular_buf_new 5)
   \<and> (A \<noteq> B \<and> A \<noteq> C \<longrightarrow>
        \<not> jthrowable_circular_buf_find
            (foldl jthrowable_circular_buf_push (jthrowable_circular_buf_new 2) [A, B, C]) A)
   \<and> jthrowable_circular_buf_find
        (foldl jthrowable_circular_buf_push (jthrowable_circular_buf_new 2) [A, B, C]) B
   \<and> jthrowable_circular_buf_find
        (foldl jthrowable_circular_buf_push (jthrowable_circular_buf_new 2) [A, B, C]) C"
proof -
  have 1: "0 < K \<longrightarrow>
      jthrowable_circular_buf_find
        (foldl jthrowable_circular_buf_push (jthrowable_circular_buf_new K) xs) x
      = (x \<in> set (drop (length xs - K) xs))
    \<and> cb_capacity (foldl jthrowable_circular_buf_push (jthrowable_circular_buf_new K) xs) = K"
    using find_after_pushes [of K xs x] ring_after_pushes [of K xs] by blast
  have 2: "\<forall>buf s'. create_exception_buf_for_thread env tid s = Some (Some buf, s')
        \<longrightarrow> buf = jthrowable_circular_buf_new 5"
    by (auto simp: create_exception_buf_for_thread_def REPORTED_EXCEPTION_STACK_CAPACITY_def
        Let_def split: if_splits option.splits)
  have 3: "jthrowable_circular_buf_find
        (foldl jthrowable_circular_buf_push (jthrowable_circular_buf_new 2) [A, B, C]) y
       = (y \<in> set (drop (length [A, B, C] - 2) [A, B, C]))" for y
    by (rule find_after_pushes) simp
  show ?thesis using 1 2 3 [of A] 3 [of B] 3 [of C] by (simp add: numeral_3_eq_3)
qed

theorem dedup_buffer_keeps_most_recent_witness:
  "(0::nat) < 2
   \<and> \<not> jthrowable_circular_buf_find
         (foldl jthrowable_circular_buf_push (jthrowable_circular_buf_new 2) [10, 20, 30]) 10
   \<and> jthrowable_circular_buf_find
         (foldl jthrowable_circular_buf_push (jthrowable_circular_buf_new 2) [10, 20, 30]) 20
   \<and> jthrowable_circular_buf_find
         (foldl jthrowable_circular_buf_push (jthrowable_circular_buf_new 2) [10, 20, 30]) 30
   \<and> cb_capacity
         (foldl jthrowable_circular_buf_push (jthrowable_circular_buf_new 2) [10, 20, 30]) = 2
   \<and> create_exception_buf_for_thread (example_jvm None) 7 initial_state
       = Some (Some (jthrowable_circular_buf_new 5),
               initial_state\<lparr>threadMap := Some [(7, jthrowable_circular_buf_new 5)]\<rparr>)"
proof -
  have c: "create_exception_buf_for_thread (example_jvm None) 7 initial_state
       = Some (Some (jthrowable_circular_buf_new 5),
               initial_state\<lparr>threadMap := Some [(7, jthrowable_circular_buf_new 5)]\<rparr>)"
    by (simp add: create_exception_buf_for_thread_def example_jvm_def initial_state_def
        jthread_map_new_def jthread_map_push_def REPORTED_EXCEPTION_STACK_CAPACITY_def Let_def)
  show ?thesis
    using dedup_buffer_keeps_most_recent
            [of 2 "[10, 20, 30]" 10 "example_jvm None" 7 initial_state 10 20 30] c
    by simp
qed

section \<open>Claims about the handlers\<close>

text \<open>
  C5, as stated: for every thread and every fault that is not in the thread's dedup
  buffer, a throw with no catch location followed by the end of the thread yields
  exactly one report. When the allocation of the pending record fails, the handler
  prints a message and drops the fault: the throw and the end of the thread then
  yield no report.
\<close>

theorem failed_allocation_drops_uncaught_fault:
  "callback_on_exception failing_malloc_jvm 7 3 100 None initial_state = Some initial_state
   \<and> callback_on_thread_end failing_malloc_jvm 7 initial_state = Some initial_state
   \<and> reported initial_state = []"
  by code_simp

text \<open>
  C5, amended. Let the agent's maps be created, let E be a fault that is not in the
  dedup buffer of thread t, and let the handler read the thread's identifier, the throwing method's name, class and
  class signature and the type name of E, and allocate the pending record. Then a
  throw of E on t with no catch location, followed by the end of thread t with no
  catch in between, yields exactly one report, and its message starts with
  \<open>Uncaught\<close>.
\<close>

theorem uncaught_throw_then_thread_end:
  assumes "threadMap s = Some tm" and "get_tid env thr = Some tid"
    and "\<not> already_reported (jthread_map_get tm tid) E"
    and "method_resolved env m"
    and "get_exception_type_name env E \<noteq> None"
    and "malloc_report_ok env"
  shows "\<exists>s1 s2 r.
           callback_on_exception env thr m E None s = Some s1
         \<and> reported s1 = reported s
         \<and> callback_on_thread_end env thr s1 = Some s2
         \<and> reported s2 = reported s @ [r]
         \<and> starts_with ''Uncaught'' (rs_message r)"
proof -
  from assms(4) obtain n c sig where l: "GetMethodName env m = Some n"
    "GetMethodDeclaringClass env m = Some c" "GetClassSignature env c = Some sig"
    by (rule method_resolvedE)
  from assms(5) obtain tn where tn: "get_exception_type_name env E = Some tn" by auto
  define rpt where "rpt =
        \<lparr>rpt_message = format_exception_reason_message (calloc_message_ok env) False tn
                         (butlast (format_class_name sig CHR ''.'')) n,
         rpt_stacktrace = fst (generate_thread_stack_trace env thr E),
         rpt_executable = (if executable_thread_flag env
                           then snd (generate_thread_stack_trace env thr E) else None),
         rpt_exception_type_name = Some tn,
         rpt_additional_info = collect_additional_debug_information env,
         rpt_exception_object = E\<rparr>"
  define s1 where "s1 = s\<lparr>uncaughtExceptionMap := jthread_map_push (uncaughtExceptionMap s) tid rpt\<rparr>"
  have 1: "callback_on_exception env thr m E None s = Some s1"
    unfolding s1_def rpt_def
    by (rule on_exception_uncaught [OF assms(1,2,3) l tn assms(6)])
  have tm1: "threadMap s1 = Some tm" using assms(1) by (simp add: s1_def)
  have p: "jthread_map_get (uncaughtExceptionMap s1) tid = Some rpt" by (simp add: s1_def)
  have nr: "\<not> already_reported (jthread_map_get tm tid) (rpt_exception_object rpt)"
    using assms(3) by (simp add: rpt_def)
  have 2: "callback_on_thread_end env thr s1 =
     Some (report_stacktrace
             (case rpt_executable rpt of None \<Rightarrow> main_class env | Some e \<Rightarrow> Some e)
             (case rpt_message rpt of None \<Rightarrow> ''Uncaught exception'' | Some x \<Rightarrow> x)
             (rpt_stacktrace rpt) (rpt_additional_info rpt)
             (s1\<lparr>threadMap := Some (AList.delete tid tm),
                 uncaughtExceptionMap := AList.delete tid (uncaughtExceptionMap s1)\<rparr>))"
    using nr by (simp add: on_thread_end_pending [OF tm1 assms(2) p] Let_def)
  have 3: "starts_with ''Uncaught''
             (case rpt_message rpt of None \<Rightarrow> ''Uncaught exception'' | Some x \<Rightarrow> x)"
    by (simp add: rpt_def message_Uncaught)
  show ?thesis
    using 1 2 3 by (simp add: report_stacktrace_def s1_def)
qed

theorem uncaught_throw_then_thread_end_witness:
  "\<exists>s1 s2 r.
       callback_on_exception (example_jvm None) 7 3 100 None initial_state = Some s1
     \<and> reported s1 = reported initial_state
     \<and> callback_on_thread_end (example_jvm None) 7 s1 = Some s2
     \<and> reported s2 = reported initial_state @ [r]
     \<and> starts_with ''Uncaught'' (rs_message r)"
proof (rule uncaught_throw_then_thread_end)
  show "threadMap initial_state = Some []"
    by (simp add: initial_state_def jthread_map_new_def)
  show "get_tid (example_jvm None) 7 = Some 7" by (rule example_get_tid)
  show "\<not> already_reported (jthread_map_get [] 7) 100"
    by (simp add: already_reported_def jthread_map_get_def)
  show "method_resolved (example_jvm None) 3" by (rule example_method_resolved)
  show "get_exception_type_name (example_jvm None) 100 \<noteq> None"
    by (simp add: example_type_name)
  show "malloc_report_ok (example_jvm None)" by (simp add: example_jvm_def)
qed

text \<open>
  C1, as stated: a throw of E with no catch location, then a catch of E, then the
  end of the thread yield exactly one report, phrased \<open>Caught\<close>. With no type on the
  list of types to report when caught (the default), the three events yield no
  report: the catch removes the pending record and reports nothing.
\<close>

theorem throw_catch_thread_end_unlisted_reports_nothing:
  "callback_on_exception (example_jvm None) 7 3 100 None initial_state
     = Some (initial_state\<lparr>uncaughtExceptionMap :=
         [(7, \<lparr>rpt_message = Some
                 ''Uncaught exception java.lang.IllegalStateException in method com.example.Main.run()'',
               rpt_stacktrace = Some ''trace'', rpt_executable = None,
               rpt_exception_type_name = Some ''java.lang.IllegalStateException'',
               rpt_additional_info = None, rpt_exception_object = 100\<rparr>)]\<rparr>)
   \<and> callback_on_exception_catch (example_jvm None) 7 4 100
       (initial_state\<lparr>uncaughtExceptionMap :=
         [(7, \<lparr>rpt_message = Some
                 ''Uncaught exception java.lang.IllegalStateException in method com.example.Main.run()'',
               rpt_stacktrace = Some ''trace'', rpt_executable = None,
               rpt_exception_type_name = Some ''java.lang.IllegalStateException'',
               rpt_additional_info = None, rpt_exception_object = 100\<rparr>)]\<rparr>)
     = Some initial_state
   \<and> callback_on_thread_end (example_jvm None) 7 initial_state = Some initial_state
   \<and> reported initial_state = []"
  by code_simp

text \<open>
  C1, amended. Let E be a fault that is not in the dedup buffer of thread t, and let
  the JVM's lookups, the allocation of the record and the \<open>equals\<close> call succeed. A
  throw of E on t with no catch location parks a pending record and reports
  nothing. The catch of E on t that follows removes the record; if the type name of
  E is on the list of types to report even when caught, it yields exactly one
  report, whose message starts with \<open>Caught\<close>, and otherwise none. The end of
  thread t yields no further report in either case.
\<close>

theorem throw_catch_thread_end:
  assumes "threadMap s = Some tm" and "get_tid env thr = Some tid"
    and "\<not> already_reported (jthread_map_get tm tid) E"
    and "method_resolved env throw_method" and "method_resolved env catch_method"
    and "get_exception_type_name env E = Some type_name"
    and "malloc_report_ok env"
    and "FindClass_Object env" and "GetMethodID_equals env"
    and "Object_equals env E E = Some True"
  shows "\<exists>s1 s2 s3.
           callback_on_exception env thr throw_method E None s = Some s1
         \<and> reported s1 = reported s
         \<and> callback_on_exception_catch env thr catch_method E s1 = Some s2
         \<and> (if on_allow_list env type_name
             then \<exists>r. reported s2 = reported s @ [r] \<and> starts_with ''Caught'' (rs_message r)
             else reported s2 = reported s)
         \<and> callback_on_thread_end env thr s2 = Some s3
         \<and> reported s3 = reported s2"
proof -
  from assms(4) obtain n c sig where l: "GetMethodName env throw_method = Some n"
    "GetMethodDeclaringClass env throw_method = Some c" "GetClassSignature env c = Some sig"
    by (rule method_resolvedE)
  define rpt where "rpt =
        \<lparr>rpt_message = format_exception_reason_message (calloc_message_ok env) False type_name
                         (butlast (format_class_name sig CHR ''.'')) n,
         rpt_stacktrace = fst (generate_thread_stack_trace env thr E),
         rpt_executable = (if executable_thread_flag env
                           then snd (generate_thread_stack_trace env thr E) else None),
         rpt_exception_type_name = Some type_name,
         rpt_additional_info = collect_additional_debug_information env,
         rpt_exception_object = E\<rparr>"
  define s1 where
    "s1 = s\<lparr>uncaughtExceptionMap := jthread_map_push (uncaughtExceptionMap s) tid rpt\<rparr>"
  have 1: "callback_on_exception env thr throw_method E None s = Some s1"
    unfolding s1_def rpt_def
    by (rule on_exception_uncaught [OF assms(1,2,3) l assms(6,7)])
  have tm1: "threadMap s1 = Some tm" using assms(1) by (simp add: s1_def)
  have r1: "reported s1 = reported s" by (simp add: s1_def)
  have p: "jthread_map_get (uncaughtExceptionMap s1) tid = Some rpt" by (simp add: s1_def)
  have "\<exists>s'. callback_on_exception_catch env thr catch_method E s1 = Some s'
     \<and> (if on_allow_list env type_name
         then \<exists>r. reported s' = reported s1 @ [r] \<and> starts_with ''Caught'' (rs_message r)
         else reported s' = reported s1)
     \<and> uncaughtExceptionMap s' = AList.delete tid (uncaughtExceptionMap s1)
     \<and> threadMap s' \<noteq> None"
    using assms(3,8,9,10)
    by (intro on_catch_match [OF tm1 assms(2) p _ _ _ _ _ assms(5)]) (simp_all add: rpt_def)
  then obtain s2 where 2: "callback_on_exception_catch env thr catch_method E s1 = Some s2"
    "if on_allow_list env type_name
     then \<exists>r. reported s2 = reported s1 @ [r] \<and> starts_with ''Caught'' (rs_message r)
     else reported s2 = reported s1"
    "uncaughtExceptionMap s2 = AList.delete tid (uncaughtExceptionMap s1)"
    by blast
  have "jthread_map_get (uncaughtExceptionMap s2) tid = None"
    using 2(3) by simp
  from on_thread_end_no_pending [OF this assms(2)]
  obtain s3 where 3: "callback_on_thread_end env thr s2 = Some s3" "reported s3 = reported s2"
    by blast
  from 1 r1 2(1) 2(2) [unfolded r1] 3 show ?thesis by simp
qed

theorem throw_catch_thread_end_witness:
  "\<exists>s1 s2 s3.
       callback_on_exception (example_jvm (Some [''java.lang.IllegalStateException'']))
         7 3 100 None initial_state = Some s1
     \<and> reported s1 = reported initial_state
     \<and> callback_on_exception_catch (example_jvm (Some [''java.lang.IllegalStateException'']))
         7 4 100 s1 = Some s2
     \<and> (\<exists>r. reported s2 = reported initial_state @ [r] \<and> starts_with ''Caught'' (rs_message r))
     \<and> callback_on_thread_end (example_jvm (Some [''java.lang.IllegalStateException'']))
         7 s2 = Some s3
     \<and> reported s3 = reported s2"
proof -
  have a: "on_allow_list (example_jvm (Some [''java.lang.IllegalStateException'']))
             ''java.lang.IllegalStateException''"
    by (simp add: on_allow_list_def example_jvm_def)
  have "\<exists>s1 s2 s3.
       callback_on_exception (example_jvm (Some [''java.lang.IllegalStateException'']))
         7 3 100 None initial_state = Some s1
     \<and> reported s1 = reported initial_state
     \<and> callback_on_exception_catch (example_jvm (Some [''java.lang.IllegalStateException'']))
         7 4 100 s1 = Some s2
     \<and> (if on_allow_list (example_jvm (Some [''java.lang.IllegalStateException'']))
              ''java.lang.IllegalStateException''
         then \<exists>r. reported s2 = reported initial_state @ [r]
                 \<and> starts_with ''Caught'' (rs_message r)
         else reported s2 = reported initial_state)
     \<and> callback_on_thread_end (example_jvm (Some [''java.lang.IllegalStateException'']))
         7 s2 = Some s3
     \<and> reported s3 = reported s2"
  proof (rule throw_catch_thread_end)
    show "threadMap initial_state = Some []"
      by (simp add: initial_state_def jthread_map_new_def)
    show "get_tid (example_jvm (Some [''java.lang.IllegalStateException''])) 7 = Some 7"
      by (rule example_get_tid)
    show "\<not> already_reported (jthread_map_get [] 7) 100"
      by (simp add: already_reported_def jthread_map_get_def)
    show "method_resolved (example_jvm (Some [''java.lang.IllegalStateException''])) 3"
      by (rule example_method_resolved)
    show "method_resolved (example_jvm (Some [''java.lang.IllegalStateException''])) 4"
      by (rule example_method_resolved)
    show "get_exception_type_name (example_jvm (Some [''java.lang.IllegalStateException'']))
            100 = Some ''java.lang.IllegalStateException''"
      by (rule example_type_name)
  qed (simp_all add: example_jvm_def)
  then show ?thesis using a by simp
qed

text \<open>
  C2, as stated: every throw with no catch location stores a pending record for the
  throwing thread. A throw of a fault that is already in the thread's dedup buffer
  stores nothing: the handler checks the buffer first.
\<close>

theorem top_level_throw_of_reported_fault_stores_nothing:
  "jthrowable_circular_buf_find
     (jthrowable_circular_buf_push
        (jthrowable_circular_buf_new REPORTED_EXCEPTION_STACK_CAPACITY) 100) 100
   \<and> callback_on_exception (example_jvm None) 7 3 100 None reported_state = Some reported_state
   \<and> uncaughtExceptionMap reported_state = []"
  by code_simp

text \<open>
  C2, amended. A throw with no catch location of a fault that is not in the dedup
  buffer of the throwing thread, handled with the JVM's lookups and the allocation
  of the record succeeding, builds a pending record holding message, stack trace,
  executable path, fault-type name, additional-info list and the fault identity,
  and stores it for the throwing thread without looking at what the registry holds
  for that thread: afterwards the registry holds the new record for the thread,
  whatever it held before, and the entries of other threads, the dedup buffers and
  the reports are as before.
\<close>

theorem top_level_throw_parks_record:
  assumes "threadMap s = Some tm" and "get_tid env thr = Some tid"
    and "\<not> already_reported (jthread_map_get tm tid) E"
    and "GetMethodName env m = Some method_name"
    and "GetMethodDeclaringClass env m = Some method_class"
    and "GetClassSignature env method_class = Some class_signature"
    and "get_exception_type_name env E = Some type_name"
    and "malloc_report_ok env"
  shows "\<exists>s'. callback_on_exception env thr m E None s = Some s'
     \<and> jthread_map_get (uncaughtExceptionMap s') tid =
         Some \<lparr>rpt_message = format_exception_reason_message (calloc_message_ok env) False
                               type_name (butlast (format_class_name class_signature CHR ''.''))
                               method_name,
               rpt_stacktrace = fst (generate_thread_stack_trace env thr E),
               rpt_executable = (if executable_thread_flag env
                                 then snd (generate_thread_stack_trace env thr E) else None),
               rpt_exception_type_name = Some type_name,
               rpt_additional_info = collect_additional_debug_information env,
               rpt_exception_object = E\<rparr>
     \<and> (\<forall>t. t \<noteq> tid \<longrightarrow>
           jthread_map_get (uncaughtExceptionMap s') t = jthread_map_get (uncaughtExceptionMap s) t)
     \<and> threadMap s' = threadMap s \<and> reported s' = reported s"
proof -
  let ?rpt = "\<lparr>rpt_message = format_exception_reason_message (calloc_message_ok env) False
                               type_name (butlast (format_class_name class_signature CHR ''.''))
                               method_name,
               rpt_stacktrace = fst (generate_thread_stack_trace env thr E),
               rpt_executable = (if executable_thread_flag env
                                 then snd (generate_thread_stack_trace env thr E) else None),
               rpt_exception_type_name = Some type_name,
               rpt_additional_info = collect_additional_debug_information env,
               rpt_exception_object = E\<rparr>"
  let ?s' = "s\<lparr>uncaughtExceptionMap := jthread_map_push (uncaughtExceptionMap s) tid ?rpt\<rparr>"
  have run: "callback_on_exception env thr m E None s = Some ?s'"
    by (rule on_exception_uncaught [OF assms])
  have stored: "jthread_map_get (uncaughtExceptionMap ?s') tid = Some ?rpt"
    by simp
  have others: "\<forall>t. t \<noteq> tid \<longrightarrow>
      jthread_map_get (uncaughtExceptionMap ?s') t = jthread_map_get (uncaughtExceptionMap s) t"
    by simp
  have frame: "threadMap ?s' = threadMap s" "reported ?s' = reported s"
    by simp_all
  from run stored others frame show ?thesis by blast
qed

theorem top_level_throw_parks_record_witness:
  "\<exists>s'. callback_on_exception (example_jvm None) 7 3 200 None pending_state = Some s'
     \<and> jthread_map_get (uncaughtExceptionMap pending_state) 7 = Some pending_100
     \<and> jthread_map_get (uncaughtExceptionMap s') 7 =
         Some \<lparr>rpt_message = Some
                 ''Uncaught exception java.lang.IllegalStateException in method com.example.Main.run()'',
               rpt_stacktrace = Some ''trace'', rpt_executable = None,
               rpt_exception_type_name = Some ''java.lang.IllegalStateException'',
               rpt_additional_info = None, rpt_exception_object = 200\<rparr>
     \<and> reported s' = reported pending_state"
proof -
  have f: "format_exception_reason_message True False ''java.lang.IllegalStateException''
             (butlast (format_class_name ''Lcom/example/Main;'' CHR ''.'')) ''run''
           = Some ''Uncaught exception java.lang.IllegalStateException in method com.example.Main.run()''"
    by code_simp
  have p: "jthread_map_get (uncaughtExceptionMap pending_state) 7 = Some pending_100"
    by (simp add: pending_state_def jthread_map_get_def)
  have "\<exists>s'. callback_on_exception (example_jvm None) 7 3 200 None pending_state = Some s'
     \<and> jthread_map_get (uncaughtExceptionMap s') 7 =
         Some \<lparr>rpt_message = format_exception_reason_message
                               (calloc_message_ok (example_jvm None)) False
                               ''java.lang.IllegalStateException''
                               (butlast (format_class_name ''Lcom/example/Main;'' CHR ''.''))
                               ''run'',
               rpt_stacktrace = fst (generate_thread_stack_trace (example_jvm None) 7 200),
               rpt_executable = (if executable_thread_flag (example_jvm None)
                                 then snd (generate_thread_stack_trace (example_jvm None) 7 200)
                                 else None),
               rpt_exception_type_name = Some ''java.lang.IllegalStateException'',
               rpt_additional_info = collect_additional_debug_information (example_jvm None),
               rpt_exception_object = 200\<rparr>
     \<and> (\<forall>t. t \<noteq> 7 \<longrightarrow>
           jthread_map_get (uncaughtExceptionMap s') t
           = jthread_map_get (uncaughtExceptionMap pending_state) t)
     \<and> threadMap s' = threadMap pending_state \<and> reported s' = reported pending_state"
  proof (rule top_level_throw_parks_record)
    show "threadMap pending_state = Some []"
      by (simp add: pending_state_def initial_state_def jthread_map_new_def)
    show "get_tid (example_jvm None) 7 = Some 7" by (rule example_get_tid)
    show "\<not> already_reported (jthread_map_get [] 7) 200"
      by (simp add: already_reported_def jthread_map_get_def)
    show "get_exception_type_name (example_jvm None) 200
            = Some ''java.lang.IllegalStateException''"
      by (rule example_type_name)
    show "GetMethodDeclaringClass (example_jvm None) 3 = Some 1"
      by (simp add: example_jvm_def)
  qed (simp_all add: example_jvm_def)
  moreover have "calloc_message_ok (example_jvm None)"
    "generate_thread_stack_trace (example_jvm None) 7 200 = (Some ''trace'', None)"
    "\<not> executable_thread_flag (example_jvm None)"
    "collect_additional_debug_information (example_jvm None) = None"
    by (simp_all add: example_jvm_def)
  ultimately obtain s' where
    "callback_on_exception (example_jvm None) 7 3 200 None pending_state = Some s'"
    "jthread_map_get (uncaughtExceptionMap s') 7 =
         Some \<lparr>rpt_message = Some
                 ''Uncaught exception java.lang.IllegalStateException in method com.example.Main.run()'',
               rpt_stacktrace = Some ''trace'', rpt_executable = None,
               rpt_exception_type_name = Some ''java.lang.IllegalStateException'',
               rpt_additional_info = None, rpt_exception_object = 200\<rparr>"
    "reported s' = reported pending_state"
    using f by auto
  with p show ?thesis by blast
qed

text \<open>
  C6. A catch whose fault is not the one of the thread's pending record (the
  \<open>equals\<close> call does not answer true), or on a thread that has no pending record,
  leaves the whole state as it is: the pending registry is untouched, the pending
  record of the thread, if any, stays, and nothing is reported.
\<close>

theorem catch_mismatch_no_action:
  assumes "\<forall>tid rpt. get_tid env thread = Some tid
             \<longrightarrow> jthread_map_get (uncaughtExceptionMap s) tid = Some rpt
             \<longrightarrow> Object_equals env exception_object (rpt_exception_object rpt) \<noteq> Some True"
  shows "callback_on_exception_catch env thread m exception_object s = Some s"
proof (cases "get_tid env thread")
  case None
  then show ?thesis by (simp add: callback_on_exception_catch_def)
next
  case (Some tid)
  show ?thesis
  proof (cases "jthread_map_get (uncaughtExceptionMap s) tid")
    case None
    with Some show ?thesis by (simp add: callback_on_exception_catch_def)
  next
    case (Some rpt)
    with assms \<open>get_tid env thread = Some tid\<close>
    have "Object_equals env exception_object (rpt_exception_object rpt) \<noteq> Some True"
      by blast
    with Some \<open>get_tid env thread = Some tid\<close> show ?thesis
      by (simp add: callback_on_exception_catch_def)
  qed
qed

theorem catch_mismatch_no_action_witness:
  "jthread_map_get (uncaughtExceptionMap pending_state) 7 = Some pending_100
   \<and> Object_equals (example_jvm None) 200 (rpt_exception_object pending_100) = Some False
   \<and> callback_on_exception_catch (example_jvm None) 7 4 200 pending_state = Some pending_state
   \<and> jthread_map_get (uncaughtExceptionMap initial_state) 7 = None
   \<and> callback_on_exception_catch (example_jvm None) 7 4 200 initial_state = Some initial_state"
proof -
  have p: "jthread_map_get (uncaughtExceptionMap pending_state) 7 = Some pending_100"
    by (simp add: pending_state_def jthread_map_get_def)
  have q: "jthread_map_get (uncaughtExceptionMap initial_state) 7 = None"
    by (simp add: initial_state_def jthread_map_get_def jthread_map_new_def)
  have e: "Object_equals (example_jvm None) 200 (rpt_exception_object pending_100) = Some False"
    by (simp add: example_jvm_def pending_100_def)
  have 1: "callback_on_exception_catch (example_jvm None) 7 4 200 pending_state
           = Some pending_state"
    using p e example_get_tid [of None]
    by (intro catch_mismatch_no_action) auto
  have 2: "callback_on_exception_catch (example_jvm None) 7 4 200 initial_state
           = Some initial_state"
    using q example_get_tid [of None]
    by (intro catch_mismatch_no_action) auto
  show ?thesis using 1 2 p q e by simp
qed

text \<open>
  C8. A throw whose catch location is known and whose fault-type name is not on the
  list of types to report even when caught (no list is configured, the name cannot
  be read, or the name is not in the list) leaves the whole state as it is: nothing
  is reported, and neither the pending registry nor the dedup buffer of the thread
  changes.
\<close>

theorem caught_not_listed_no_action:
  assumes "catch_method \<noteq> None"
    and "case reportedCaughExceptionTypes env of
           None \<Rightarrow> True
         | Some types \<Rightarrow>
            (case get_exception_type_name env exception_object of
               None \<Rightarrow> True
             | Some type_name \<Rightarrow> type_name \<notin> set types)"
  shows "callback_on_exception env thr m exception_object catch_method s = Some s"
  using assms
  by (auto simp: callback_on_exception_def exception_is_intended_to_be_reported_def Let_def
      split: option.splits)

theorem caught_not_listed_no_action_witness:
  "reportedCaughExceptionTypes (example_jvm (Some [''java.lang.OutOfMemoryError'']))
     = Some [''java.lang.OutOfMemoryError'']
   \<and> get_exception_type_name (example_jvm (Some [''java.lang.OutOfMemoryError''])) 100
     = Some ''java.lang.IllegalStateException''
   \<and> callback_on_exception (example_jvm (Some [''java.lang.OutOfMemoryError''])) 7 3 100 (Some 4)
        pending_state = Some pending_state"
proof -
  have l: "reportedCaughExceptionTypes (example_jvm (Some [''java.lang.OutOfMemoryError'']))
     = Some [''java.lang.OutOfMemoryError'']"
    by (simp add: example_jvm_def)
  show ?thesis
    using caught_not_listed_no_action
        [where catch_method = "Some 4"
           and env = "example_jvm (Some [''java.lang.OutOfMemoryError''])"
           and exception_object = 100 and thr = 7 and m = 3 and s = pending_state]
      l example_type_name [of "Some [''java.lang.OutOfMemoryError'']" 100]
    by simp
qed

section \<open>Facts about runs of events\<close>







lemma find_push_same:
  "ring_ok b \<Longrightarrow> jthrowable_circular_buf_find (jthrowable_circular_buf_push b x) x"
  by (simp add: ring_ok_def jthrowable_circular_buf_find_def jthrowable_circular_buf_push_def
      set_update_memI)

lemma buffers_ok_get:
  "list_all (\<lambda>(tid, buf). ring_ok buf) tm \<Longrightarrow> jthread_map_get tm tid = Some b \<Longrightarrow> ring_ok b"
  by (auto simp: jthread_map_get_def list_all_iff dest!: map_of_SomeD)

lemma push_reported_exception_in_window:
  assumes "threadMap s = Some tm" "threads_exc_buf = jthread_map_get tm tid"
    "buffers_ok s" "circular_buf_alloc_ok env \<or> threads_exc_buf \<noteq> None"
  shows "\<exists>s'. push_reported_exception env tid threads_exc_buf E s = Some s'
      \<and> in_dedup_window s' tid E \<and> reported s' = reported s
      \<and> uncaughtExceptionMap s' = uncaughtExceptionMap s"
proof (cases threads_exc_buf)
  case None
  have "ring_ok (jthrowable_circular_buf_new REPORTED_EXCEPTION_STACK_CAPACITY)"
    by (simp add: ring_ok_new REPORTED_EXCEPTION_STACK_CAPACITY_def)
  then show ?thesis
    using None assms
    by (simp add: push_reported_exception_def create_exception_buf_for_thread_def Let_def
        in_dedup_window_def already_reported_def find_push_same)
next
  case (Some b)
  then have "ring_ok b"
    using assms by (auto simp: buffers_ok_def dest: buffers_ok_get)
  then show ?thesis
    using Some assms
    by (simp add: push_reported_exception_def in_dedup_window_def already_reported_def
        find_push_same)
qed

lemma on_exception_caught_cases:
  assumes "threadMap s = Some tm" and "get_tid env thr = Some tid"
  shows "callback_on_exception env thr m E (Some cm) s = Some s
       \<or> callback_on_exception env thr m E (Some cm) s = None
       \<or> (\<exists>exe msg st info.
            callback_on_exception env thr m E (Some cm) s
            = push_reported_exception env tid (jthread_map_get tm tid) E
                (report_stacktrace exe msg st info s))"
proof -
  have lk: "lookup_threads_exc_buf env thr s = (tid, jthread_map_get tm tid)"
    using assms by (simp add: lookup_threads_exc_buf_def)
  show ?thesis
    unfolding callback_on_exception_def lk Let_def
    by (simp split: prod.split option.split) blast
qed

lemma jthread_map_empty_get: "jthread_map_empty m \<Longrightarrow> jthread_map_get m tid = None"
  by (cases m) (simp_all add: jthread_map_empty_def jthread_map_get_def)











section \<open>Claims about runs of events\<close>




section \<open>Further properties of the handlers\<close>

text \<open>
  A throw with a known catch location that reports puts the fault into the dedup
  buffer of its thread, provided the buffers of the state are well-formed and the
  thread has a buffer or one can be allocated.
\<close>

theorem report_puts_fault_in_window:
  assumes "threadMap s = Some tm" and "get_tid env thr = Some tid"
    and "buffers_ok s"
    and "circular_buf_alloc_ok env \<or> jthread_map_get tm tid \<noteq> None"
    and "callback_on_exception env thr m E (Some cm) s = Some s'"
    and "reported s' \<noteq> reported s"
  shows "in_dedup_window s' tid E"
proof -
  from on_exception_caught_cases [OF assms(1,2), of m E cm] assms(5,6)
  obtain exe msg st info where
    p: "push_reported_exception env tid (jthread_map_get tm tid) E
          (report_stacktrace exe msg st info s) = Some s'"
    by auto
  have "threadMap (report_stacktrace exe msg st info s) = Some tm"
    "buffers_ok (report_stacktrace exe msg st info s)"
    using assms(1,3) by (simp_all add: report_stacktrace_def buffers_ok_def)
  from push_reported_exception_in_window [OF this(1) refl this(2) assms(4), of E] p
  show ?thesis by simp
qed

theorem report_puts_fault_in_window_witness:
  "callback_on_exception (example_jvm (Some [''java.lang.IllegalStateException''])) 7 3 100
       (Some 4) initial_state
     = Some \<lparr>threadMap = Some [(7, \<lparr>cb_capacity = 5,
                                      cb_mem = [Some 100, None, None, None, None],
                                      cb_end = 1\<rparr>)],
             uncaughtExceptionMap = [],
             reported = [\<lparr>rs_executable = Some ''Main'',
                          rs_message = ''Caught exception java.lang.IllegalStateException in method com.example.Main.run()'',
                          rs_stacktrace = Some ''trace'', rs_additional_info = None\<rparr>]\<rparr>
   \<and> in_dedup_window
        \<lparr>threadMap = Some [(7, \<lparr>cb_capacity = 5,
                                 cb_mem = [Some 100, None, None, None, None],
                                 cb_end = 1\<rparr>)],
         uncaughtExceptionMap = [],
         reported = [\<lparr>rs_executable = Some ''Main'',
                      rs_message = ''Caught exception java.lang.IllegalStateException in method com.example.Main.run()'',
                      rs_stacktrace = Some ''trace'', rs_additional_info = None\<rparr>]\<rparr>
        7 100"
proof -
  have c: "callback_on_exception (example_jvm (Some [''java.lang.IllegalStateException''])) 7 3 100
       (Some 4) initial_state
     = Some \<lparr>threadMap = Some [(7, \<lparr>cb_capacity = 5,
                                      cb_mem = [Some 100, None, None, None, None],
                                      cb_end = 1\<rparr>)],
             uncaughtExceptionMap = [],
             reported = [\<lparr>rs_executable = Some ''Main'',
                          rs_message = ''Caught exception java.lang.IllegalStateException in method com.example.Main.run()'',
                          rs_stacktrace = Some ''trace'', rs_additional_info = None\<rparr>]\<rparr>"
    by code_simp
  have t: "threadMap initial_state = Some []"
    by (simp add: initial_state_def jthread_map_new_def)
  have b: "buffers_ok initial_state"
    by (simp add: buffers_ok_def initial_state_def jthread_map_new_def)
  have a: "circular_buf_alloc_ok (example_jvm (Some [''java.lang.IllegalStateException'']))
           \<or> jthread_map_get [] 7 \<noteq> None"
    by (simp add: example_jvm_def)
  have r: "reported \<lparr>threadMap = Some [(7, \<lparr>cb_capacity = 5,
                                      cb_mem = [Some 100, None, None, None, None],
                                      cb_end = 1\<rparr>)],
             uncaughtExceptionMap = [],
             reported = [\<lparr>rs_executable = Some ''Main'',
                          rs_message = ''Caught exception java.lang.IllegalStateException in method com.example.Main.run()'',
                          rs_stacktrace = Some ''trace'', rs_additional_info = None\<rparr>]\<rparr>
           \<noteq> reported initial_state"
    by (simp add: initial_state_def)
  show ?thesis
    using report_puts_fault_in_window [OF t example_get_tid b a c r] c by simp
qed

text \<open>
  The end of a thread removes the thread's entry from both maps: afterwards the
  thread has neither a dedup buffer nor a pending record.
\<close>

theorem thread_end_clears_thread:
  assumes "threadMap s = Some tm" and "get_tid env thr = Some tid"
  shows "\<exists>s' tm'. callback_on_thread_end env thr s = Some s'
       \<and> threadMap s' = Some tm'
       \<and> jthread_map_get tm' tid = None
       \<and> jthread_map_get (uncaughtExceptionMap s') tid = None"
proof (cases "jthread_map_empty tm \<and> jthread_map_empty (uncaughtExceptionMap s)")
  case True
  then show ?thesis
    using assms by (simp add: callback_on_thread_end_def jthread_map_empty_get)
next
  case False
  define s1 where "s1 = s\<lparr>threadMap := Some (AList.delete tid tm),
       uncaughtExceptionMap := AList.delete tid (uncaughtExceptionMap s)\<rparr>"
  have "callback_on_thread_end env thr s = Some s1
      \<or> (\<exists>exe msg st info. callback_on_thread_end env thr s
             = Some (report_stacktrace exe msg st info s1))"
  proof (cases "jthread_map_get (uncaughtExceptionMap s) tid")
    case None
    then show ?thesis
      using assms False
      by (simp add: callback_on_thread_end_def jthread_map_pop_conv s1_def)
  next
    case (Some r)
    then show ?thesis
      using assms False
      by (cases "already_reported (jthread_map_get tm tid) (rpt_exception_object r)")
         (auto simp: callback_on_thread_end_def jthread_map_pop_conv s1_def)
  qed
  moreover have "threadMap s1 = Some (AList.delete tid tm)"
    "jthread_map_get (uncaughtExceptionMap s1) tid = None"
    by (simp_all add: s1_def)
  ultimately show ?thesis
    by (auto simp: report_stacktrace_def)
qed

theorem thread_end_clears_thread_witness:
  "\<exists>s' tm'. callback_on_thread_end (example_jvm None) 7 pending_state = Some s'
     \<and> jthread_map_get (uncaughtExceptionMap pending_state) 7 = Some pending_100
     \<and> threadMap s' = Some tm'
     \<and> jthread_map_get tm' 7 = None
     \<and> jthread_map_get (uncaughtExceptionMap s') 7 = None"
proof -
  have t: "threadMap pending_state = Some []"
    by (simp add: pending_state_def initial_state_def jthread_map_new_def)
  have p: "jthread_map_get (uncaughtExceptionMap pending_state) 7 = Some pending_100"
    by (simp add: pending_state_def jthread_map_get_def)
  show ?thesis
    using thread_end_clears_thread [OF t example_get_tid [of None]] p by auto
qed

end
